theory Spec2Isabelle
  imports Main "HOL-Library.AList"
begin

section \<open>Python values and exceptions\<close>

text \<open>
  The code checks at run time that node names are strings (\<open>isinstance(name, str)\<close>), so
  an argument that may be anything is a \<open>pyval\<close>. Every \<open>raise\<close> of the source is a
  value of \<open>error\<close>; \<open>KeyError\<close> is what a dictionary read of a missing key raises and
  \<open>HostError\<close> stands for an exception of the standard library (importlib, os.path).
\<close>

datatype pyval = PStr string | PInt int | PNone

datatype error =
    CallGraphError string
  | ImportManagerError string
  | ImportError string
  | KeyError string
  | HostError string
  | PyException string

section \<open>CallGraph (src/pycg/machinery/callgraph.py)\<close>

text \<open>
  The three dictionaries \<open>cg\<close>, \<open>cg_extended\<close> and \<open>modnames\<close> are maps from node
  names. An entry of \<open>cg_extended\<close> holds the list \<open>dsts\<close> of edge records and the
  \<open>modname\<close> of its \<open>meta\<close> dictionary.
\<close>

record edge_record =
  e_dst :: string
  e_lineno :: int
  e_mod :: string
  e_ext_mod :: string

record ext_node =
  dsts :: "edge_record list"
  meta_modname :: string

record callgraph =
  cg :: "string \<rightharpoonup> string set"
  cg_extended :: "string \<rightharpoonup> ext_node"
  modnames :: "string \<rightharpoonup> string"

definition init_callgraph :: callgraph where
  "init_callgraph = \<lparr>cg = Map.empty, cg_extended = Map.empty, modnames = Map.empty\<rparr>"

text \<open>
  \<open>add_node\<close> (lines 36-66). Both checks raise before anything is written, and the two
  dictionary reads can only fail on an entry that the call did not create itself, so every
  raise leaves the graph as it was: the result is the error alone or the new graph. The
  second \<open>if\<close> tests \<open>name in self.cg\<close>, which holds by then, and the truth of
  \<open>self.modnames[name]\<close>; the extended metadata is written only in its \<open>else\<close> branch.
\<close>

definition add_node :: "callgraph \<Rightarrow> pyval \<Rightarrow> string \<Rightarrow> error + callgraph" where
  "add_node s name modname =
     (case name of
        PStr n \<Rightarrow>
          if n = [] then Inl (CallGraphError ''Empty node name'')
          else
            let s1 = (if cg s n = None
                      then s\<lparr>cg := (cg s)(n \<mapsto> {}),
                             cg_extended := (cg_extended s)(n \<mapsto> \<lparr>dsts = [], meta_modname = modname\<rparr>),
                             modnames := (modnames s)(n \<mapsto> modname)\<rparr>
                      else s)
            in (case modnames s1 n of
                  None \<Rightarrow> Inl (KeyError n)
                | Some m \<Rightarrow>
                    if m = [] then Inr (s1\<lparr>modnames := (modnames s1)(n \<mapsto> modname)\<rparr>)
                    else (case cg_extended s1 n of
                            None \<Rightarrow> Inl (KeyError n)
                          | Some x \<Rightarrow>
                              if meta_modname x = []
                              then Inr (s1\<lparr>cg_extended := (cg_extended s1)(n \<mapsto> x\<lparr>meta_modname := modname\<rparr>)\<rparr>)
                              else Inr s1))
      | _ \<Rightarrow> Inl (CallGraphError ''Only string node names allowed''))"

text \<open>
  \<open>add_edge\<close> (lines 68-81) calls \<open>add_node\<close> twice and then writes both dictionaries; an
  exception leaves what was written before it, so the result pairs the outcome with the
  graph at that moment.
\<close>

definition add_edge ::
  "callgraph \<Rightarrow> pyval \<Rightarrow> pyval \<Rightarrow> int \<Rightarrow> string \<Rightarrow> string \<Rightarrow> (error + unit) \<times> callgraph" where
  "add_edge s src dest lineno md ext_md =
     (case add_node s src md of
        Inl e \<Rightarrow> (Inl e, s)
      | Inr s1 \<Rightarrow>
          (case add_node s1 dest [] of
             Inl e \<Rightarrow> (Inl e, s1)
           | Inr s2 \<Rightarrow>
               (case (src, dest) of
                  (PStr a, PStr b) \<Rightarrow>
                    (case cg s2 a of
                       None \<Rightarrow> (Inl (KeyError a), s2)
                     | Some ds \<Rightarrow>
                         let s3 = s2\<lparr>cg := (cg s2)(a \<mapsto> insert b ds)\<rparr>
                         in (case cg_extended s3 a of
                               None \<Rightarrow> (Inl (KeyError a), s3)
                             | Some x \<Rightarrow>
                                 (Inr (),
                                  s3\<lparr>cg_extended := (cg_extended s3)(a \<mapsto>
                                       x\<lparr>dsts := dsts x @
                                         [\<lparr>e_dst = b, e_lineno = lineno, e_mod = md, e_ext_mod = ext_md\<rparr>]\<rparr>)\<rparr>)))
                | _ \<Rightarrow> (Inl (CallGraphError ''Only string node names allowed''), s2))))"

definition get_modules :: "callgraph \<Rightarrow> string \<rightharpoonup> string" where
  "get_modules s = modnames s"

definition get_extended :: "callgraph \<Rightarrow> string \<rightharpoonup> ext_node" where
  "get_extended s = cg_extended s"

text \<open>
  A run of \<open>add_node\<close> calls on one name, and notions the statements below use: the key sets
  of the three dictionaries agree (an invariant of every graph built from the empty one),
  a name that passes both checks, the first non-empty element of a list of module names, the
  length of a node's edge log and its adjacency set.
\<close>

fun add_nodes :: "callgraph \<Rightarrow> pyval \<Rightarrow> string list \<Rightarrow> error + callgraph" where
  "add_nodes s name [] = Inr s"
| "add_nodes s name (m # ms) =
     (case add_node s name m of Inl e \<Rightarrow> Inl e | Inr s' \<Rightarrow> add_nodes s' name ms)"

definition cg_inv :: "callgraph \<Rightarrow> bool" where
  "cg_inv s = (dom (cg_extended s) = dom (cg s) \<and> dom (modnames s) = dom (cg s))"

definition valid_name :: "pyval \<Rightarrow> bool" where
  "valid_name v = (case v of PStr n \<Rightarrow> n \<noteq> [] | _ \<Rightarrow> False)"

definition first_nonempty :: "string \<Rightarrow> string list \<Rightarrow> string" where
  "first_nonempty m0 ms = (case filter (\<lambda>m. m \<noteq> []) (m0 # ms) of [] \<Rightarrow> [] | m # _ \<Rightarrow> m)"

definition log_length :: "callgraph \<Rightarrow> string \<Rightarrow> nat" where
  "log_length s a = (case cg_extended s a of None \<Rightarrow> 0 | Some x \<Rightarrow> length (dsts x))"

definition adjacency :: "callgraph \<Rightarrow> string \<Rightarrow> string set" where
  "adjacency s a = (case cg s a of None \<Rightarrow> {} | Some ds \<Rightarrow> ds)"

section \<open>ImportManager (src/pycg/machinery/imports.py)\<close>

text \<open>
  A node of the import graph is the dictionary \<open>{"filename": ..., "imports": set()}\<close>. It has
  two keys, so it is true wherever the code tests \<open>if node\<close>: the test only asks whether the
  name is in the graph.
\<close>

record node =
  node_filename :: string
  node_imports :: "string set"

text \<open>
  A module object as this code reads it: \<open>hasattr(mod, "__file__")\<close> and the value of the
  attribute. Module objects are true in a boolean test; an entry of \<open>sys.modules\<close> can
  also be \<open>None\<close>, which is false.
\<close>

datatype pyfile = NoAttr | FileNone | FileStr string

record pymodule =
  mod_file :: pyfile

text \<open>
  The interpreter state the code reads and writes: \<open>sys.builtin_module_names\<close>,
  \<open>sys.modules\<close>, \<open>sys.path_hooks\<close> and \<open>sys.path\<close>. The last two are optional since
  \<open>remove_hooks\<close> assigns them the saved values, which are \<open>None\<close> before the first
  \<open>install_hooks\<close>. The file does \<open>import importlib\<close> only (line 24), and reads
  \<open>importlib.abc\<close> (line 34) and \<open>importlib.machinery\<close> (lines 249 and 251): a submodule
  is an attribute of the package only once something has imported it, so whether each is
  bound belongs to the state.
\<close>

datatype finder = CustomFinder | HostFinder nat

record interp =
  builtin_module_names :: "string list"
  sys_modules :: "string \<rightharpoonup> pymodule option"
  sys_path_hooks :: "finder list option"
  sys_path :: "string list option"
  importlib_abc :: bool
  importlib_machinery :: bool

text \<open>
  What \<open>importlib.import_module(mod_name, package)\<close> does, as far as this code can see:
  the path finder locates modules, and for each of them constructs the custom loader with
  the module's full name and path; the call then returns a module or raises; modules are
  left in \<open>sys.modules\<close>.
\<close>

record import_outcome =
  located :: "(string \<times> string) list"
  loaded :: "error + pymodule"
  cached :: "string \<rightharpoonup> pymodule option"

text \<open>
  The standard library and the helper \<open>utils.to_mod_name\<close> (not in src) are parameters of
  the model: \<open>os.path.abspath\<close>, \<open>os.path.relpath\<close> (which may raise),
  \<open>os.path.split(p)[0]\<close>, \<open>os.path.dirname\<close> and \<open>importlib.import_module\<close>.
\<close>

record host =
  abspath :: "string \<Rightarrow> string"
  relpath :: "string \<Rightarrow> string option \<Rightarrow> error + string"
  split_head :: "string \<Rightarrow> string"
  dirname :: "string \<Rightarrow> string"
  to_mod_name :: "string \<Rightarrow> string"
  import_module :: "interp \<Rightarrow> string \<Rightarrow> string \<Rightarrow> import_outcome"

record import_manager =
  import_graph :: "string \<rightharpoonup> node"
  current_module :: string
  input_file :: string
  mod_dir :: "string option"
  old_path_hooks :: "finder list option"
  old_path :: "string list option"

definition init_import_manager :: import_manager where
  "init_import_manager =
     \<lparr>import_graph = Map.empty, current_module = [], input_file = [],
      mod_dir = None, old_path_hooks = None, old_path = None\<rparr>"

definition set_pkg :: "import_manager \<Rightarrow> string \<Rightarrow> import_manager" where
  "set_pkg im input_pkg = im\<lparr>mod_dir := Some input_pkg\<rparr>"

definition get_node :: "import_manager \<Rightarrow> string \<Rightarrow> node option" where
  "get_node im name = import_graph im name"

text \<open>
  \<open>create_node\<close> (lines 81-90), \<open>create_edge\<close> (lines 92-101) and \<open>set_filepath\<close>
  (lines 130-139) raise before they write.
\<close>

definition create_node :: "import_manager \<Rightarrow> pyval \<Rightarrow> error + (node \<times> import_manager)" where
  "create_node im name =
     (case name of
        PStr n \<Rightarrow>
          if n = [] then Inl (ImportManagerError ''Invalid node name'')
          else (case get_node im n of
                  Some _ \<Rightarrow> Inl (ImportManagerError ''Can't create a node a second time'')
                | None \<Rightarrow>
                    let nd = \<lparr>node_filename = [], node_imports = {}\<rparr>
                    in Inr (nd, im\<lparr>import_graph := (import_graph im)(n \<mapsto> nd)\<rparr>))
      | _ \<Rightarrow> Inl (ImportManagerError ''Invalid node name''))"

definition get_module_path :: "import_manager \<Rightarrow> string" where
  "get_module_path im = current_module im"

definition create_edge :: "import_manager \<Rightarrow> pyval \<Rightarrow> error + import_manager" where
  "create_edge im dest =
     (case dest of
        PStr d \<Rightarrow>
          if d = [] then Inl (ImportManagerError ''Invalid node name'')
          else (case get_node im (get_module_path im) of
                  None \<Rightarrow> Inl (ImportManagerError ''Can't add edge to a non existing node'')
                | Some nd \<Rightarrow>
                    Inr (im\<lparr>import_graph := (import_graph im)
                           (get_module_path im \<mapsto> nd\<lparr>node_imports := insert d (node_imports nd)\<rparr>)\<rparr>))
      | _ \<Rightarrow> Inl (ImportManagerError ''Invalid node name''))"

definition set_current_mod :: "host \<Rightarrow> import_manager \<Rightarrow> string \<Rightarrow> string \<Rightarrow> import_manager" where
  "set_current_mod h im name fname = im\<lparr>current_module := name, input_file := abspath h fname\<rparr>"

definition set_filepath :: "host \<Rightarrow> import_manager \<Rightarrow> string \<Rightarrow> pyval \<Rightarrow> error + import_manager" where
  "set_filepath h im node_name fname =
     (case fname of
        PStr f \<Rightarrow>
          if f = [] then Inl (ImportManagerError ''Invalid node name'')
          else (case get_node im node_name of
                  None \<Rightarrow> Inl (ImportManagerError ''Node does not exist'')
                | Some nd \<Rightarrow>
                    Inr (im\<lparr>import_graph := (import_graph im)
                           (node_name \<mapsto> nd\<lparr>node_filename := abspath h f\<rparr>)\<rparr>))
      | _ \<Rightarrow> Inl (ImportManagerError ''Invalid node name''))"

definition get_imports :: "import_manager \<Rightarrow> string \<Rightarrow> string set" where
  "get_imports im modname =
     (case import_graph im modname of None \<Rightarrow> {} | Some nd \<Rightarrow> node_imports nd)"

text \<open>
  The constructor of \<open>CustomLoader\<close> (lines 35-46) records the edge, and the node with its
  path when the node is new. Its steps write one after the other, so an exception leaves the
  earlier writes.
\<close>

definition custom_loader_init ::
  "host \<Rightarrow> import_manager \<Rightarrow> string \<Rightarrow> string \<Rightarrow> (error + unit) \<times> import_manager" where
  "custom_loader_init h im fullname path =
     (if current_module im = [] then (Inr (), im)
      else (case create_edge im (PStr fullname) of
              Inl e \<Rightarrow> (Inl e, im)
            | Inr im1 \<Rightarrow>
                (case get_node im1 fullname of
                   Some _ \<Rightarrow> (Inr (), im1)
                 | None \<Rightarrow>
                     (case create_node im1 (PStr fullname) of
                        Inl e \<Rightarrow> (Inl e, im1)
                      | Inr (_, im2) \<Rightarrow>
                          (case set_filepath h im2 fullname (PStr path) of
                             Inl e \<Rightarrow> (Inl e, im2)
                           | Inr im3 \<Rightarrow> (Inr (), im3))))))"

text \<open>
  String operations of Python: \<open>s.split(".")\<close>, \<open>".".join(xs)\<close>, the slice \<open>xs[:-n]\<close>
  (which is empty for \<open>n = 0\<close>), \<open>s.startswith(p)\<close>, \<open>s.endswith(p)\<close> and the substring
  test \<open>sub in s\<close>.
\<close>

fun split_dot :: "string \<Rightarrow> string list" where
  "split_dot [] = [[]]"
| "split_dot (c # cs) =
     (if c = CHR ''.'' then [] # split_dot cs
      else (case split_dot cs of
              w # ws \<Rightarrow> (c # w) # ws
            | [] \<Rightarrow> [[c]]))"

fun join_dot :: "string list \<Rightarrow> string" where
  "join_dot [] = []"
| "join_dot [w] = w"
| "join_dot (w # ws) = w @ ''.'' @ join_dot ws"

definition slice_off :: "'a list \<Rightarrow> int \<Rightarrow> 'a list" where
  "slice_off xs n =
     (let stop = - n;
          k = (if stop < 0 then max 0 (int (length xs) + stop) else stop)
      in take (nat k) xs)"

fun startswith :: "string \<Rightarrow> string \<Rightarrow> bool" where
  "startswith s [] = True"
| "startswith [] (p # ps) = False"
| "startswith (c # cs) (p # ps) = (c = p \<and> startswith cs ps)"

definition endswith :: "string \<Rightarrow> string \<Rightarrow> bool" where
  "endswith s suf = startswith (rev s) (rev suf)"

fun str_contains :: "string \<Rightarrow> string \<Rightarrow> bool" where
  "str_contains [] sub = (sub = [])"
| "str_contains (c # cs) sub = (startswith (c # cs) sub \<or> str_contains cs sub)"

definition is_init_file :: "import_manager \<Rightarrow> bool" where
  "is_init_file im = endswith (input_file im) ''__init__.py''"

text \<open>
  \<open>_handle_import_level\<close> (lines 152-169); the level is a Python integer.
\<close>

definition handle_import_level ::
  "import_manager \<Rightarrow> string \<Rightarrow> int \<Rightarrow> error + (string \<times> string)" where
  "handle_import_level im name level =
     (let package = split_dot (get_module_path im)
      in if level > int (length package)
         then Inl (ImportError ''Attempting import beyond top level package'')
         else
           let mod_name = replicate (nat level) CHR ''.'' @ name;
               package' =
                 (if is_init_file im \<and> level \<ge> 1
                  then (if level \<noteq> 1 then slice_off package (level - 1) else package)
                  else slice_off package level)
           in Inr (mod_name, join_dot package'))"

text \<open>
  Modelled from the spec: \<open>utils.join_ns\<close> is not in src; the spec has it join the name
  directly under the package namespace, no dots stripped.
\<close>

definition join_ns :: "string \<Rightarrow> string \<Rightarrow> string" where
  "join_ns a b = a @ ''.'' @ b"

text \<open>
  The list \<open>combos\<close> of \<open>handle_import\<close> (lines 201-206).
\<close>

definition combos :: "string \<Rightarrow> string \<Rightarrow> string \<Rightarrow> (string \<times> string) list" where
  "combos name mod_name package =
     (let parent = join_dot (butlast (split_dot mod_name));
          parent_name = join_dot (butlast (split_dot name))
      in [(mod_name, package),
          (parent, package),
          (join_ns package name, []),
          (join_ns package parent_name, [])])"

text \<open>
  \<open>_do_import\<close> (lines 171-177): a name already in \<open>sys.modules\<close> gets its edge and
  its entry is returned; otherwise importlib runs, the loaders it constructs write to the import graph in turn, and
  an exception of a loader ends the import.
\<close>

fun run_loaders ::
  "host \<Rightarrow> import_manager \<Rightarrow> (string \<times> string) list \<Rightarrow> (error + unit) \<times> import_manager" where
  "run_loaders h im [] = (Inr (), im)"
| "run_loaders h im ((fullname, path) # rest) =
     (case custom_loader_init h im fullname path of
        (Inl e, im') \<Rightarrow> (Inl e, im')
      | (Inr _, im') \<Rightarrow> run_loaders h im' rest)"

definition do_import ::
  "host \<Rightarrow> import_manager \<times> interp \<Rightarrow> string \<Rightarrow> string
     \<Rightarrow> (error + pymodule option) \<times> (import_manager \<times> interp)" where
  "do_import h st mod_name package =
     (case st of (im, sy) \<Rightarrow>
        (case sys_modules sy mod_name of
           Some m \<Rightarrow>
             (case create_edge im (PStr mod_name) of
                Inl e \<Rightarrow> (Inl e, (im, sy))
              | Inr im' \<Rightarrow> (Inr m, (im', sy)))
         | None \<Rightarrow>
             let out = import_module h sy mod_name package;
                 sy' = sy\<lparr>sys_modules := cached out\<rparr>
             in (case run_loaders h im (located out) of
                   (Inl e, im') \<Rightarrow> (Inl e, (im', sy'))
                 | (Inr _, im') \<Rightarrow>
                     (case loaded out of
                        Inl e \<Rightarrow> (Inl e, (im', sy'))
                      | Inr m \<Rightarrow> (Inr (Some m), (im', sy'))))))"

text \<open>
  The loop over \<open>combos\<close> (lines 209-217): the bare \<open>except\<close> swallows every exception
  and goes on to the next candidate; the first call that returns ends the loop, and a
  \<open>None\<close> it returned counts as no module afterwards (\<open>if not mod\<close>). Beside the
  module and the state the function returns the candidates it handed to \<open>_do_import\<close>, in
  order, each with whether the call returned (the source prints a line before each call and
  one after a call that returns).
\<close>

type_synonym attempt = "(string \<times> string) \<times> bool"

fun try_combos ::
  "host \<Rightarrow> (string \<times> string) list \<Rightarrow> import_manager \<times> interp
     \<Rightarrow> pymodule option \<times> (import_manager \<times> interp) \<times> attempt list" where
  "try_combos h [] st = (None, st, [])"
| "try_combos h ((mn, pkg) # rest) st =
     (case do_import h st mn pkg of
        (Inr m, st') \<Rightarrow> (m, st', [((mn, pkg), True)])
      | (Inl e, st') \<Rightarrow>
          (case try_combos h rest st' of
             (r, st'', tried) \<Rightarrow> (r, st'', ((mn, pkg), False) # tried)))"

definition root_of :: "string \<Rightarrow> string" where
  "root_of name = (case split_dot name of r # _ \<Rightarrow> r | [] \<Rightarrow> [])"

text \<open>
  The end of \<open>handle_import\<close> (lines 220-234), for the module the loop produced.
\<close>

definition resolved_name ::
  "host \<Rightarrow> import_manager \<Rightarrow> pymodule \<Rightarrow> error + string option" where
  "resolved_name h im m =
     (case mod_file m of
        NoAttr \<Rightarrow> Inr None
      | FileNone \<Rightarrow> Inr None
      | FileStr f \<Rightarrow>
          if f = [] then Inr None
          else if (case mod_dir im of Some d \<Rightarrow> \<not> str_contains f d | None \<Rightarrow> False)
          then Inr None
          else
            let fname = (if endswith f ''__init__.py'' then split_head h f else f)
            in (case relpath h fname (mod_dir im) of
                  Inl e \<Rightarrow> Inl e
                | Inr r \<Rightarrow> Inr (Some (to_mod_name h r))))"

text \<open>
  \<open>handle_import\<close> (lines 179-234). Only \<open>ImportError\<close> is caught around the level step.
\<close>

definition handle_import ::
  "host \<Rightarrow> import_manager \<times> interp \<Rightarrow> string \<Rightarrow> int
     \<Rightarrow> (error + string option) \<times> (import_manager \<times> interp) \<times> attempt list" where
  "handle_import h st name level =
     (case st of (im, sy) \<Rightarrow>
        let root = root_of name
        in if root \<in> set (builtin_module_names sy)
           then (case create_edge im (PStr root) of
                   Inl e \<Rightarrow> (Inl e, st, [])
                 | Inr im' \<Rightarrow> (Inr None, (im', sy), []))
           else (case handle_import_level im name level of
                   Inl (ImportError _) \<Rightarrow> (Inr None, st, [])
                 | Inl e \<Rightarrow> (Inl e, st, [])
                 | Inr (mod_name, package) \<Rightarrow>
                     (case try_combos h (combos name mod_name package) st of
                        (None, st', tried) \<Rightarrow> (Inr None, st', tried)
                      | (Some m, (im', sy'), tried) \<Rightarrow>
                          (resolved_name h im' m, (im', sy'), tried))))"

text \<open>
  \<open>_clear_caches\<close> (lines 104-114) deletes the names of the import graph from
  \<open>sys.modules\<close>; \<open>install_hooks\<close> (lines 240-257) and \<open>remove_hooks\<close> (lines 259-264).
  \<open>install_hooks\<close> starts with \<open>get_custom_loader\<close> (lines 29-57), whose class statement
  evaluates the base class \<open>importlib.abc.SourceLoader\<close>: with \<open>importlib.abc\<close> unbound
  it raises \<open>AttributeError\<close> before anything is saved. The saved copies are written next
  (lines 244 and 246), then \<open>importlib.machinery\<close> is read (line 249), then the two lists
  are changed (lines 251 and 253), the receiver of each \<open>insert\<close> before its argument.
\<close>

definition clear_caches :: "import_manager \<Rightarrow> interp \<Rightarrow> interp" where
  "clear_caches im sy =
     sy\<lparr>sys_modules := (\<lambda>name. if import_graph im name = None then sys_modules sy name else None)\<rparr>"

definition install_hooks ::
  "host \<Rightarrow> import_manager \<times> interp \<Rightarrow> (error + unit) \<times> (import_manager \<times> interp)" where
  "install_hooks h st =
     (case st of (im, sy) \<Rightarrow>
        if \<not> importlib_abc sy then (Inl (HostError ''AttributeError''), (im, sy))
        else
          let im1 = im\<lparr>old_path_hooks := sys_path_hooks sy, old_path := sys_path sy\<rparr>
          in if \<not> importlib_machinery sy then (Inl (HostError ''AttributeError''), (im1, sy))
             else
               (case sys_path_hooks sy of
                  None \<Rightarrow> (Inl (HostError ''AttributeError''), (im1, sy))
                | Some hooks \<Rightarrow>
                    let sy1 = sy\<lparr>sys_path_hooks := Some (CustomFinder # hooks)\<rparr>
                    in (case sys_path sy1 of
                          None \<Rightarrow> (Inl (HostError ''AttributeError''), (im1, sy1))
                        | Some ps \<Rightarrow>
                            (case mod_dir im1 of
                               None \<Rightarrow> (Inl (HostError ''TypeError''), (im1, sy1))
                             | Some d \<Rightarrow>
                                 let sy2 = sy1\<lparr>sys_path := Some (abspath h d # ps)\<rparr>
                                 in (Inr (), (im1, clear_caches im1 sy2))))))"

definition remove_hooks :: "import_manager \<times> interp \<Rightarrow> import_manager \<times> interp" where
  "remove_hooks st =
     (case st of (im, sy) \<Rightarrow>
        (im, clear_caches im (sy\<lparr>sys_path_hooks := old_path_hooks im, sys_path := old_path im\<rparr>)))"

section \<open>CallGraphGenerator (src/pycg/pycg.py)\<close>

text \<open>
  Modelled from the spec: the definition, scope and class managers are not in src. By the
  fact-store contract of the spec \<open>get_defs()\<close> maps a namespace to a definition with a
  name-pointee set and a literal-pointee set, \<open>get_scopes()\<close> maps a scope to its
  definitions (each with its namespace) and \<open>get_classes()\<close> maps a class to its ancestor
  list. The dictionaries are association lists in insertion order.
\<close>

record defi =
  def_ns :: string
  name_pointer :: "string set"
  lit_pointer :: "string set"

record stores =
  defs :: "(string \<times> defi) list"
  scopes :: "(string \<times> (string \<times> defi) list) list"
  classes :: "(string \<times> string list) list"

text \<open>
  The snapshot \<open>extract_state\<close> builds (lines 67-83): three dictionaries, filled by
  assignment key by key.
\<close>

record def_snapshot =
  names :: "string set"
  lit :: "string set"

record snapshot =
  s_defs :: "(string \<times> def_snapshot) list"
  s_scopes :: "(string \<times> string set) list"
  s_classes :: "(string \<times> string list) list"

definition extract_state :: "stores \<Rightarrow> snapshot" where
  "extract_state st =
     \<lparr>s_defs = fold (\<lambda>(key, d). AList.update key \<lparr>names = name_pointer d, lit = lit_pointer d\<rparr>)
                 (defs st) [],
      s_scopes = fold (\<lambda>(key, scope). AList.update key (set (map (\<lambda>(_, x). def_ns x) scope)))
                 (scopes st) [],
      s_classes = fold (\<lambda>(key, ch). AList.update key ch) (classes st) []\<rparr>"

text \<open>
  \<open>has_converged\<close> (lines 89-118): one loop per dictionary of the current snapshot, each
  returning \<open>False\<close> at the first key that is missing from the prior snapshot or differs
  there. A snapshot is a dictionary with three keys, so \<open>not self.state\<close> holds only for
  \<open>None\<close>.
\<close>

fun check_defs :: "(string \<times> def_snapshot) list \<Rightarrow> snapshot \<Rightarrow> bool" where
  "check_defs [] prev = True"
| "check_defs ((key, d) # rest) prev =
     (case map_of (s_defs prev) key of
        None \<Rightarrow> False
      | Some p \<Rightarrow>
          if names d \<noteq> names p then False
          else if lit d \<noteq> lit p then False
          else check_defs rest prev)"

fun check_scopes :: "(string \<times> string set) list \<Rightarrow> snapshot \<Rightarrow> bool" where
  "check_scopes [] prev = True"
| "check_scopes ((key, scope) # rest) prev =
     (case map_of (s_scopes prev) key of
        None \<Rightarrow> False
      | Some p \<Rightarrow> if scope \<noteq> p then False else check_scopes rest prev)"

fun check_classes :: "(string \<times> string list) list \<Rightarrow> snapshot \<Rightarrow> bool" where
  "check_classes [] prev = True"
| "check_classes ((key, ch) # rest) prev =
     (case map_of (s_classes prev) key of
        None \<Rightarrow> False
      | Some p \<Rightarrow> if ch \<noteq> p then False else check_classes rest prev)"

definition has_converged :: "snapshot option \<Rightarrow> stores \<Rightarrow> bool" where
  "has_converged state st =
     (case state of
        None \<Rightarrow> False
      | Some prev \<Rightarrow>
          let curr_state = extract_state st
          in if \<not> check_defs (s_defs curr_state) prev then False
             else if \<not> check_scopes (s_scopes curr_state) prev then False
             else if \<not> check_classes (s_classes curr_state) prev then False
             else True)"

text \<open>
  What an analysis pass can touch: the import manager, the interpreter, the fact stores and
  whatever else the collaborators hold (module manager, call graph, key errors, counters).
  A pass is a parameter of the model: constructing the processor and calling \<open>analyze()\<close>
  either raises or returns, with the shared set \<open>modules_analyzed\<close> as the pass left it and
  the value of \<open>get_modules_analyzed()\<close>.
\<close>

record 'w world =
  w_im :: import_manager
  w_sys :: interp
  w_stores :: stores
  w_rest :: 'w

type_synonym 'w processor =
  "string \<Rightarrow> string \<Rightarrow> string set \<Rightarrow> 'w world \<Rightarrow> (error + string set \<times> string set) \<times> 'w world"

text \<open>
  The calls \<open>do_pass\<close> makes, in order: \<open>install_hooks\<close>, the pass for a module, and
  \<open>remove_import_hooks\<close>.
\<close>

datatype event = Install | Run string | Remove

text \<open>
  \<open>_get_mod_name\<close> (lines 126-137) and \<open>do_pass\<close> (lines 139-184), the loop over the
  entry points as a recursion. There is no \<open>try\<close> in the loop: an exception of
  \<open>install_hooks\<close> or of the pass ends \<open>do_pass\<close> at once.
\<close>

definition get_mod_name :: "host \<Rightarrow> string \<Rightarrow> string option \<Rightarrow> error + string" where
  "get_mod_name h entry pkg =
     (case relpath h entry pkg of
        Inl e \<Rightarrow> Inl e
      | Inr r \<Rightarrow>
          let input_mod = to_mod_name h r
          in if endswith input_mod ''__init__''
             then Inr (join_dot (butlast (split_dot input_mod)))
             else Inr input_mod)"

fun do_pass ::
  "host \<Rightarrow> 'w processor \<Rightarrow> bool \<Rightarrow> string option \<Rightarrow> string list \<Rightarrow> string set \<Rightarrow> 'w world
     \<Rightarrow> (error + unit) \<times> 'w world \<times> event list" where
  "do_pass h cls hooks package [] modules_analyzed w = (Inr (), w, [])"
| "do_pass h cls hooks package (entry_point # rest) modules_analyzed w =
     (case get_mod_name h entry_point package of
        Inl e \<Rightarrow> (Inl e, w, [])
      | Inr input_mod \<Rightarrow>
          let input_file = abspath h entry_point
          in if input_mod = [] then do_pass h cls hooks package rest modules_analyzed w
             else
               let input_pkg = (case package of
                                  None \<Rightarrow> dirname h input_file
                                | Some p \<Rightarrow> if p = [] then dirname h input_file else p)
               in if input_mod \<in> modules_analyzed
                  then do_pass h cls hooks package rest modules_analyzed w
                  else
                    (case (if hooks
                           then (case install_hooks h (set_pkg (w_im w) input_pkg, w_sys w) of
                                   (r, (im1, sy1)) \<Rightarrow> (r, w\<lparr>w_im := im1, w_sys := sy1\<rparr>, [Install]))
                           else (Inr (), w, [])) of
                       (Inl e, w1, ev1) \<Rightarrow> (Inl e, w1, ev1)
                     | (Inr _, w1, ev1) \<Rightarrow>
                         (case cls input_file input_mod modules_analyzed w1 of
                            (Inl e, w2) \<Rightarrow> (Inl e, w2, ev1 @ [Run input_mod])
                          | (Inr (shared, analyzed), w2) \<Rightarrow>
                              (case (if hooks
                                     then (case remove_hooks (w_im w2, w_sys w2) of
                                             (im3, sy3) \<Rightarrow> (w2\<lparr>w_im := im3, w_sys := sy3\<rparr>, [Remove]))
                                     else (w2, [])) of
                                 (w3, ev3) \<Rightarrow>
                                   (case do_pass h cls hooks package rest (shared \<union> analyzed) w3 of
                                      (r, w', evs) \<Rightarrow>
                                        (r, w', ev1 @ [Run input_mod] @ ev3 @ evs))))))"

text \<open>
  Modelled from the spec: the four processors, \<open>complete_definitions\<close> of the definition
  manager and \<open>reset_counters\<close> of a scope are not in src; they are parameters.
\<close>

record 'w collab =
  preprocessor :: "'w processor"
  postprocessor :: "'w processor"
  callgraph_processor :: "'w processor"
  keyerr_processor :: "'w processor"
  complete_definitions :: "'w world \<Rightarrow> 'w world"
  scope_reset_counters :: "string \<Rightarrow> 'w world \<Rightarrow> 'w world"

record 'w generator =
  entry_points :: "string list"
  package :: "string option"
  state :: "snapshot option"
  max_iter :: int
  operation :: string
  world :: "'w world"

definition reset_counters :: "'w collab \<Rightarrow> 'w generator \<Rightarrow> 'w generator" where
  "reset_counters C g =
     g\<lparr>world := fold (\<lambda>(key, scope). scope_reset_counters C key)
                   (scopes (w_stores (world g))) (world g)\<rparr>"

text \<open>
  The condition of the \<open>while\<close> loop of \<open>analyze\<close> (line 207) and its body (lines
  208-216).
\<close>

definition loop_cond :: "'w generator \<Rightarrow> int \<Rightarrow> bool" where
  "loop_cond g iter_cnt =
     ((max_iter g < 0 \<or> iter_cnt < max_iter g) \<and> \<not> has_converged (state g) (w_stores (world g)))"

definition iteration ::
  "'w collab \<Rightarrow> host \<Rightarrow> 'w generator \<Rightarrow> (error + unit) \<times> 'w generator" where
  "iteration C h g =
     (let g1 = g\<lparr>state := Some (extract_state (w_stores (world g)))\<rparr>;
          g2 = reset_counters C g1
      in (case do_pass h (postprocessor C) False (package g2) (entry_points g2) {} (world g2) of
            (Inl e, w, _) \<Rightarrow> (Inl e, g2\<lparr>world := w\<rparr>)
          | (Inr _, w, _) \<Rightarrow> (Inr (), g2\<lparr>world := complete_definitions C w\<rparr>)))"

text \<open>
  The loop itself. With a negative \<open>max_iter\<close> nothing bounds it, so it is a partial
  function: \<open>None\<close> is a run that never leaves the loop. It returns the final
  \<open>iter_cnt\<close>.
\<close>

partial_function (option) fixpoint_loop ::
  "'w collab \<Rightarrow> host \<Rightarrow> int \<Rightarrow> 'w generator \<Rightarrow> ((error + int) \<times> 'w generator) option" where
  "fixpoint_loop C h iter_cnt g =
     (if loop_cond g iter_cnt
      then (case iteration C h g of
              (Inl e, g') \<Rightarrow> Some (Inl e, g')
            | (Inr _, g') \<Rightarrow> fixpoint_loop C h (iter_cnt + 1) g')
      else Some (Inr iter_cnt, g))"

text \<open>
  Modelled from the spec: \<open>utils.constants\<close> is not in src; the two operation modes are
  those of the type annotation of \<open>__init__\<close>.
\<close>

definition CALL_GRAPH_OP :: string where
  "CALL_GRAPH_OP = ''call-graph''"

definition KEY_ERR_OP :: string where
  "KEY_ERR_OP = ''key-error''"

text \<open>
  \<open>analyze\<close> (lines 186-228) in its three stages.
\<close>

definition terminal_pass ::
  "'w collab \<Rightarrow> host \<Rightarrow> 'w generator \<Rightarrow> (error + unit) \<times> 'w generator" where
  "terminal_pass C h g =
     (let g1 = reset_counters C g
      in if operation g1 = CALL_GRAPH_OP
         then (case do_pass h (callgraph_processor C) False (package g1) (entry_points g1) {} (world g1) of
                 (r, w, _) \<Rightarrow> (r, g1\<lparr>world := w\<rparr>))
         else if operation g1 = KEY_ERR_OP
         then (case do_pass h (keyerr_processor C) False (package g1) (entry_points g1) {} (world g1) of
                 (r, w, _) \<Rightarrow> (r, g1\<lparr>world := w\<rparr>))
         else (Inl (PyException (''Invalid operation: '' @ operation g1)), g1))"

definition preprocess_stage ::
  "'w collab \<Rightarrow> host \<Rightarrow> 'w generator \<Rightarrow> (error + unit) \<times> 'w generator" where
  "preprocess_stage C h g =
     (case do_pass h (preprocessor C) True (package g) (entry_points g) {} (world g) of
        (Inl e, w, _) \<Rightarrow> (Inl e, g\<lparr>world := w\<rparr>)
      | (Inr _, w, _) \<Rightarrow> (Inr (), g\<lparr>world := complete_definitions C w\<rparr>))"

definition analyze ::
  "'w collab \<Rightarrow> host \<Rightarrow> 'w generator \<Rightarrow> ((error + unit) \<times> 'w generator) option" where
  "analyze C h g =
     (case preprocess_stage C h g of
        (Inl e, g1) \<Rightarrow> Some (Inl e, g1)
      | (Inr _, g1) \<Rightarrow>
          (case fixpoint_loop C h 0 g1 of
             None \<Rightarrow> None
           | Some (Inl e, g2) \<Rightarrow> Some (Inl e, g2)
           | Some (Inr iter_cnt, g2) \<Rightarrow> Some (terminal_pass C h g2)))"

section \<open>Vocabulary of the statements\<close>

text \<open>
  \<open>iterations k\<close> runs the loop body \<open>k\<close> times; \<open>ran_while i g k\<close> says that the loop
  condition held before each of the first \<open>k\<close> bodies, counted from \<open>i\<close>; \<open>loop_post\<close>
  is what a result of the loop satisfies.
\<close>

fun iterations ::
  "'w collab \<Rightarrow> host \<Rightarrow> nat \<Rightarrow> 'w generator \<Rightarrow> (error + unit) \<times> 'w generator" where
  "iterations C h 0 g = (Inr (), g)"
| "iterations C h (Suc k) g =
     (case iteration C h g of
        (Inl e, g') \<Rightarrow> (Inl e, g')
      | (Inr _, g') \<Rightarrow> iterations C h k g')"

definition ran_while :: "'w collab \<Rightarrow> host \<Rightarrow> int \<Rightarrow> 'w generator \<Rightarrow> nat \<Rightarrow> bool" where
  "ran_while C h i g k =
     (\<forall>m<k. \<exists>gm. iterations C h m g = (Inr (), gm) \<and> loop_cond gm (i + int m))"

definition loop_post ::
  "'w collab \<Rightarrow> host \<Rightarrow> int \<Rightarrow> 'w generator \<Rightarrow> (error + int) \<times> 'w generator \<Rightarrow> bool" where
  "loop_post C h i g y =
     (case y of
        (Inr j, g') \<Rightarrow>
          (\<exists>k. j = i + int k \<and> iterations C h k g = (Inr (), g')
               \<and> \<not> loop_cond g' j \<and> ran_while C h i g k)
      | (Inl e, g') \<Rightarrow>
          (\<exists>k. iterations C h (Suc k) g = (Inl e, g') \<and> ran_while C h i g (Suc k)))"



text \<open>
  For the statement about the candidates: \<open>state_after h cs st\<close> is the state left by
  calling \<open>_do_import\<close> on each candidate of \<open>cs\<close> in turn from \<open>st\<close>, whatever each call
  did, and \<open>nth_attempt h cs st k\<close> is the call of \<open>_do_import\<close> on candidate \<open>k\<close> in the
  state the candidates before it left.
\<close>

fun state_after ::
  "host \<Rightarrow> (string \<times> string) list \<Rightarrow> import_manager \<times> interp \<Rightarrow> import_manager \<times> interp" where
  "state_after h [] st = st"
| "state_after h ((mn, pkg) # cs) st = state_after h cs (snd (do_import h st mn pkg))"

definition nth_attempt ::
  "host \<Rightarrow> (string \<times> string) list \<Rightarrow> import_manager \<times> interp \<Rightarrow> nat
     \<Rightarrow> (error + pymodule option) \<times> (import_manager \<times> interp)" where
  "nth_attempt h cs st k =
     do_import h (state_after h (take k cs) st) (fst (cs ! k)) (snd (cs ! k))"

text \<open>
  A host whose importlib refuses the empty name and every relative name when the package is
  empty, locating nothing and leaving \<open>sys.modules\<close> as it was (CPython raises
  \<open>TypeError\<close> and \<open>ValueError\<close> there).
\<close>

definition refuses_relative :: "host \<Rightarrow> bool" where
  "refuses_relative h =
     (\<forall>sy mn. mn = [] \<or> startswith mn ''.'' \<longrightarrow>
        located (import_module h sy mn []) = []
        \<and> isl (loaded (import_module h sy mn []))
        \<and> cached (import_module h sy mn []) = sys_modules sy)"

text \<open>
  Modelled from the spec's words, for comparison with the code: a resolved path lies inside
  the configured root when the path components of the root are the first components of the
  path. The code itself tests whether the root string occurs in the path
  (\<open>str_contains\<close>).
\<close>

fun split_slash :: "string \<Rightarrow> string list" where
  "split_slash [] = [[]]"
| "split_slash (c # cs) =
     (if c = CHR ''/'' then [] # split_slash cs
      else (case split_slash cs of
              w # ws \<Rightarrow> (c # w) # ws
            | [] \<Rightarrow> [[c]]))"

fun list_prefix :: "'a list \<Rightarrow> 'a list \<Rightarrow> bool" where
  "list_prefix [] ys = True"
| "list_prefix (x # xs) [] = False"
| "list_prefix (x # xs) (y # ys) = (x = y \<and> list_prefix xs ys)"

definition spec_inside_root :: "string \<Rightarrow> string \<Rightarrow> bool" where
  "spec_inside_root root p =
     list_prefix (filter (\<lambda>w. w \<noteq> []) (split_slash root)) (filter (\<lambda>w. w \<noteq> []) (split_slash p))"

section \<open>Concrete inputs\<close>

text \<open>
  The module \<open>pkg.sub.mod\<close> of a plain file, an interpreter with two builtin modules and
  both submodules of \<open>importlib\<close> bound, a host in which no import succeeds, and a host
  that finds module \<open>x\<close> at \<open>/ab/x.py\<close> while the package root is \<open>/a\<close>.
\<close>

definition ex_im :: import_manager where
  "ex_im = init_import_manager\<lparr>current_module := ''pkg.sub.mod'', input_file := ''/r/pkg/sub/mod.py''\<rparr>"

definition ex_interp :: interp where
  "ex_interp = \<lparr>builtin_module_names = [''sys'', ''builtins''], sys_modules = Map.empty,
                 sys_path_hooks = Some [HostFinder 0], sys_path = Some [],
                 importlib_abc = True, importlib_machinery = True\<rparr>"

definition absent_host :: host where
  "absent_host =
     \<lparr>abspath = (\<lambda>p. p),
      relpath = (\<lambda>p d. Inl (HostError ''ValueError'')),
      split_head = (\<lambda>p. p),
      dirname = (\<lambda>p. p),
      to_mod_name = (\<lambda>p. p),
      import_module = (\<lambda>sy mn pkg.
        \<lparr>located = [], loaded = Inl (HostError ''ModuleNotFoundError''),
         cached = sys_modules sy\<rparr>)\<rparr>"

definition sibling_host :: host where
  "sibling_host =
     \<lparr>abspath = (\<lambda>p. p),
      relpath = (\<lambda>p d. if p = ''/ab/x.py'' \<and> d = Some ''/a'' then Inr ''../ab/x.py''
                         else Inl (HostError ''ValueError'')),
      split_head = (\<lambda>p. p),
      dirname = (\<lambda>p. p),
      to_mod_name = (\<lambda>p. map (\<lambda>c. if c = CHR ''/'' then CHR ''.'' else c)
                              (if endswith p ''.py'' then take (length p - 3) p else p)),
      import_module = (\<lambda>sy mn pkg.
        if mn = ''x'' \<and> pkg = []
        then \<lparr>located = [(''x'', ''/ab/x.py'')],
              loaded = Inr \<lparr>mod_file = FileStr ''/ab/x.py''\<rparr>,
              cached = (sys_modules sy)(''x'' \<mapsto> Some \<lparr>mod_file = FileStr ''/ab/x.py''\<rparr>)\<rparr>
        else \<lparr>located = [], loaded = Inl (HostError ''ModuleNotFoundError''),
              cached = sys_modules sy\<rparr>)\<rparr>"

definition rooted_im :: import_manager where
  "rooted_im =
     init_import_manager
       \<lparr>import_graph := [''m'' \<mapsto> \<lparr>node_filename = ''/a/m.py'', node_imports = {}\<rparr>],
        current_module := ''m'', input_file := ''/a/m.py'', mod_dir := Some ''/a''\<rparr>"

text \<open>
  The module \<open>pkg.sub.mod\<close> under the root \<open>/r\<close>, with its node in the import graph, and a
  host that refuses relative names and finds \<open>pkg.sub.x\<close> at \<open>/r/pkg/sub/x.py\<close>.
\<close>

definition nested_im :: import_manager where
  "nested_im =
     init_import_manager
       \<lparr>import_graph := [''pkg.sub.mod'' \<mapsto> \<lparr>node_filename = ''/r/pkg/sub/mod.py'', node_imports = {}\<rparr>],
        current_module := ''pkg.sub.mod'', input_file := ''/r/pkg/sub/mod.py'',
        mod_dir := Some ''/r''\<rparr>"

definition nested_host :: host where
  "nested_host =
     \<lparr>abspath = (\<lambda>p. p),
      relpath = (\<lambda>p d. if p = ''/r/pkg/sub/x.py'' \<and> d = Some ''/r'' then Inr ''pkg/sub/x.py''
                         else Inl (HostError ''ValueError'')),
      split_head = (\<lambda>p. p),
      dirname = (\<lambda>p. p),
      to_mod_name = (\<lambda>p. map (\<lambda>c. if c = CHR ''/'' then CHR ''.'' else c)
                              (if endswith p ''.py'' then take (length p - 3) p else p)),
      import_module = (\<lambda>sy mn pkg.
        if mn = ''pkg.sub.x'' \<and> pkg = []
        then \<lparr>located = [(''pkg.sub.x'', ''/r/pkg/sub/x.py'')],
              loaded = Inr \<lparr>mod_file = FileStr ''/r/pkg/sub/x.py''\<rparr>,
              cached = (sys_modules sy)(''pkg.sub.x'' \<mapsto> Some \<lparr>mod_file = FileStr ''/r/pkg/sub/x.py''\<rparr>)\<rparr>
        else \<lparr>located = [], loaded = Inl (HostError ''ModuleNotFoundError''),
              cached = sys_modules sy\<rparr>)\<rparr>"

text \<open>
  Fact stores, snapshots, passes and generators for the statements about the driver.
\<close>

definition prior0 :: snapshot where
  "prior0 = \<lparr>s_defs = [(''a'', \<lparr>names = {''f''}, lit = {}\<rparr>)], s_scopes = [], s_classes = []\<rparr>"

definition stores0 :: stores where
  "stores0 = \<lparr>defs = [], scopes = [], classes = []\<rparr>"

definition stores1 :: stores where
  "stores1 =
     \<lparr>defs = [(''m.f'', \<lparr>def_ns = ''m.f'', name_pointer = {''m.g''}, lit_pointer = {}\<rparr>)],
      scopes = [(''m'', [(''f'', \<lparr>def_ns = ''m.f'', name_pointer = {''m.g''}, lit_pointer = {}\<rparr>)])],
      classes = [(''m.A'', [''m.A'', ''m.B''])]\<rparr>"

definition plain_host :: host where
  "plain_host =
     \<lparr>abspath = (\<lambda>p. p),
      relpath = (\<lambda>p d. Inr (case d of
                              None \<Rightarrow> p
                            | Some r \<Rightarrow> if startswith p (r @ ''/'') then drop (length r + 1) p else p)),
      split_head = (\<lambda>p. p),
      dirname = (\<lambda>p. ''/r''),
      to_mod_name = (\<lambda>p. map (\<lambda>c. if c = CHR ''/'' then CHR ''.'' else c)
                              (if endswith p ''.py'' then take (length p - 3) p else p)),
      import_module = (\<lambda>sy mn pkg.
        \<lparr>located = [], loaded = Inl (HostError ''ModuleNotFoundError''),
         cached = sys_modules sy\<rparr>)\<rparr>"

definition world0 :: "unit world" where
  "world0 = \<lparr>w_im = init_import_manager, w_sys = ex_interp, w_stores = stores0, w_rest = ()\<rparr>"


definition quiet_pass :: "unit processor" where
  "quiet_pass f m a w = (Inr (insert m a, insert m a), w)"


definition collab0 :: "unit collab" where
  "collab0 =
     \<lparr>preprocessor = quiet_pass, postprocessor = quiet_pass,
      callgraph_processor = quiet_pass, keyerr_processor = quiet_pass,
      complete_definitions = (\<lambda>w. w),
      scope_reset_counters = (\<lambda>key w. w)\<rparr>"

definition generator0 :: "int \<Rightarrow> unit generator" where
  "generator0 n =
     \<lparr>entry_points = [''/r/a.py'', ''/r/b.py''], package = Some ''/r'', state = None, max_iter = n,
      operation = CALL_GRAPH_OP, world = world0\<rparr>"

section \<open>Properties of the call graph\<close>

lemma cg_inv_init: "cg_inv init_callgraph"
  by (simp add: cg_inv_def init_callgraph_def)

lemma add_node_invalid:
  "\<not> valid_name v \<Longrightarrow> \<exists>msg. add_node s v md = Inl (CallGraphError msg)"
  by (cases v) (auto simp: add_node_def valid_name_def)

lemma add_node_total:
  assumes "cg_inv s" and "a \<noteq> []"
  shows "\<exists>s1. add_node s (PStr a) md = Inr s1 \<and> cg_inv s1 \<and> cg s1 a \<noteq> None"
proof (cases "cg s a")
  case None
  then show ?thesis
    using assms by (auto simp: add_node_def cg_inv_def Let_def)
next
  case (Some ds)
  with assms have "a \<in> dom (modnames s)" "a \<in> dom (cg_extended s)"
    by (auto simp: cg_inv_def)
  then obtain m x where "modnames s a = Some m" "cg_extended s a = Some x"
    by auto
  with Some assms show ?thesis
    by (auto simp: add_node_def cg_inv_def Let_def)
qed

lemma add_node_fresh:
  assumes "cg s a = None" and "a \<noteq> []" and "add_node s (PStr a) md = Inr s1"
  shows "cg s1 a = Some {} \<and> modnames s1 a = Some md
         \<and> cg_extended s1 a = Some \<lparr>dsts = [], meta_modname = md\<rparr>"
  using assms by (auto simp: add_node_def Let_def split: if_splits)

text \<open>
  The module registry alone is first-wins: after any run of \<open>add_node\<close> calls on a new
  name, \<open>get_modules\<close> holds the first non-empty module name of the run.
\<close>

lemma add_node_registry_step:
  assumes "cg_inv s" and "n \<noteq> []" and "modnames s n = Some m0"
  shows "\<exists>s1. add_node s (PStr n) m = Inr s1 \<and> cg_inv s1
           \<and> modnames s1 n = Some (if m0 = [] then m else m0)"
proof -
  from assms have "n \<in> dom (cg s)" "n \<in> dom (cg_extended s)"
    by (auto simp: cg_inv_def)
  then obtain ds x where "cg s n = Some ds" "cg_extended s n = Some x"
    by auto
  with assms show ?thesis
    by (auto simp: add_node_def cg_inv_def Let_def)
qed

lemma add_nodes_registry:
  assumes "cg_inv s" and "n \<noteq> []" and "modnames s n = Some m0"
  shows "\<exists>s'. add_nodes s (PStr n) ms = Inr s' \<and> modnames s' n = Some (first_nonempty m0 ms)"
  using assms
proof (induction ms arbitrary: s m0)
  case Nil
  then show ?case by (simp add: first_nonempty_def)
next
  case (Cons m ms)
  from add_node_registry_step [OF Cons.prems, of m] obtain s1 where
    s1: "add_node s (PStr n) m = Inr s1" "cg_inv s1"
        "modnames s1 n = Some (if m0 = [] then m else m0)"
    by blast
  from Cons.IH [OF s1(2) Cons.prems(2) s1(3)] obtain s' where
    "add_nodes s1 (PStr n) ms = Inr s'"
    "modnames s' n = Some (first_nonempty (if m0 = [] then m else m0) ms)"
    by blast
  with s1(1) show ?case
    by (auto simp: first_nonempty_def)
qed

lemma add_nodes_registry_fresh:
  assumes "cg_inv s" and "n \<noteq> []" and "cg s n = None"
  shows "\<exists>s'. add_nodes s (PStr n) (m # ms) = Inr s'
           \<and> get_modules s' n = Some (first_nonempty m ms)"
proof -
  from add_node_total [OF assms(1,2), of m] obtain s1 where
    s1: "add_node s (PStr n) m = Inr s1" "cg_inv s1"
    by blast
  from add_node_fresh [OF assms(3,2) s1(1)] have "modnames s1 n = Some m"
    by simp
  from add_nodes_registry [OF s1(2) assms(2) this, of ms] s1(1) show ?thesis
    by (simp add: get_modules_def)
qed

text \<open>
  C6 (the code at the claim's own example). After \<open>add_node(n, "")\<close>,
  \<open>add_node(n, "m1")\<close>, \<open>add_node(n, "m2")\<close> on a new graph the module registry holds
  \<open>m1\<close>, but the metadata of the extended graph holds \<open>m2\<close>: the second call takes the
  branch that fills the registry and skips the metadata, and the third call finds the
  metadata still blank.
\<close>

theorem add_node_backfill_sequence:
  "\<exists>s. add_nodes init_callgraph (PStr ''n'') ['''', ''m1'', ''m2''] = Inr s
     \<and> get_modules s ''n'' = Some ''m1''
     \<and> map_option meta_modname (get_extended s ''n'') = Some ''m2''"
  by (simp add: add_node_def init_callgraph_def get_modules_def get_extended_def)

text \<open>
  C8 (the code at a repeated call). After \<open>add_node(n, "")\<close> and \<open>add_node(n, "m1")\<close>, a
  second \<open>add_node(n, "m1")\<close> changes the graph: it writes \<open>m1\<close> into the extended metadata,
  which the first \<open>add_node(n, "m1")\<close> had left blank.
\<close>

theorem add_node_repeat_changes_state:
  "\<exists>s2 s3. add_nodes init_callgraph (PStr ''n'') ['''', ''m1''] = Inr s2
     \<and> add_node s2 (PStr ''n'') ''m1'' = Inr s3
     \<and> s3 \<noteq> s2
     \<and> map_option meta_modname (get_extended s2 ''n'') = Some ''''
     \<and> map_option meta_modname (get_extended s3 ''n'') = Some ''m1''"
  by (auto simp: add_node_def init_callgraph_def get_extended_def dest: map_upd_eqD1)

text \<open>
  Two equal \<open>add_edge\<close> calls: each appends one record to the log of the source, and
  the second leaves the adjacency set of the source as it was.
\<close>

lemma add_node_keeps:
  assumes "cg_inv s" and "add_node s v m = Inr s1"
  shows "log_length s1 a = log_length s a \<and> adjacency s1 a = adjacency s a
         \<and> (cg s a \<noteq> None \<longrightarrow> cg s1 a \<noteq> None)"
proof (cases v)
  case (PStr n)
  show ?thesis
  proof (cases "cg s n")
    case None
    with assms(1) have "cg_extended s n = None"
      by (auto simp: cg_inv_def)
    with None assms(2) PStr show ?thesis
      by (auto simp: add_node_def Let_def log_length_def adjacency_def
               split: if_splits)
  next
    case (Some ds)
    with assms(2) PStr show ?thesis
      by (auto simp: add_node_def Let_def log_length_def adjacency_def
               split: if_splits option.splits)
  qed
qed (use assms(2) in \<open>simp_all add: add_node_def\<close>)

lemma add_edge_step:
  assumes "cg_inv s" and "a \<noteq> []" and "b \<noteq> []"
  shows "\<exists>s'. add_edge s (PStr a) (PStr b) l md xm = (Inr (), s') \<and> cg_inv s'
           \<and> log_length s' a = Suc (log_length s a)
           \<and> adjacency s' a = insert b (adjacency s a)"
proof -
  from add_node_total [OF assms(1,2), of md] obtain s1 where
    s1: "add_node s (PStr a) md = Inr s1" "cg_inv s1" "cg s1 a \<noteq> None"
    by blast
  from add_node_total [OF s1(2) assms(3), of "[]"] obtain s2 where
    s2: "add_node s1 (PStr b) [] = Inr s2" "cg_inv s2"
    by blast
  from s1(3) add_node_keeps [OF s1(2) s2(1), of a] have "cg s2 a \<noteq> None"
    by simp
  then obtain ds where ds: "cg s2 a = Some ds" by auto
  with s2(2) have "a \<in> dom (cg_extended s2)" by (auto simp: cg_inv_def)
  then obtain x where x: "cg_extended s2 a = Some x" by auto
  have keep: "log_length s2 a = log_length s a" "adjacency s2 a = adjacency s a"
    using add_node_keeps [OF assms(1) s1(1), of a] add_node_keeps [OF s1(2) s2(1), of a]
    by simp_all
  show ?thesis
    using s1(1) s2 ds x keep
    by (auto simp: add_edge_def Let_def cg_inv_def log_length_def adjacency_def)
qed

lemma add_edge_twice:
  assumes "cg_inv s" and "a \<noteq> []" and "b \<noteq> []"
  shows "\<exists>s1 s2. add_edge s (PStr a) (PStr b) l md xm = (Inr (), s1)
           \<and> add_edge s1 (PStr a) (PStr b) l md xm = (Inr (), s2)
           \<and> log_length s1 a = log_length s a + 1
           \<and> log_length s2 a = log_length s a + 2
           \<and> b \<in> adjacency s1 a
           \<and> adjacency s2 a = adjacency s1 a"
proof -
  from add_edge_step [OF assms, of l md xm] obtain s1 where
    s1: "add_edge s (PStr a) (PStr b) l md xm = (Inr (), s1)" "cg_inv s1"
        "log_length s1 a = Suc (log_length s a)" "adjacency s1 a = insert b (adjacency s a)"
    by blast
  from add_edge_step [OF s1(2) assms(2,3), of l md xm] obtain s2 where
    s2: "add_edge s1 (PStr a) (PStr b) l md xm = (Inr (), s2)"
        "log_length s2 a = Suc (log_length s1 a)" "adjacency s2 a = insert b (adjacency s1 a)"
    by blast
  from s1 s2 show ?thesis
    by (intro exI [of _ s1] exI [of _ s2]) auto
qed

text \<open>
  C10. When the source is a non-empty string and the destination is empty or not a string,
  \<open>add_edge\<close> raises \<open>CallGraphError\<close> and leaves the graph that \<open>add_node(src, mod)\<close>
  produced: the source node exists, and where it is new the graph has changed and the module
  of the source is recorded.
\<close>

theorem add_edge_bad_dest_not_atomic:
  assumes "cg_inv s" and "a \<noteq> []" and "\<not> valid_name dest"
  shows "\<exists>s1 msg. add_node s (PStr a) md = Inr s1
           \<and> add_edge s (PStr a) dest lineno md ext_md = (Inl (CallGraphError msg), s1)
           \<and> cg s1 a \<noteq> None
           \<and> (cg s a = None \<longrightarrow> s1 \<noteq> s \<and> modnames s1 a = Some md)"
proof -
  from add_node_total [OF assms(1,2)] obtain s1 where
    s1: "add_node s (PStr a) md = Inr s1" "cg_inv s1" "cg s1 a \<noteq> None"
    by blast
  from add_node_invalid [OF assms(3)] obtain msg where
    bad: "add_node s1 dest [] = Inl (CallGraphError msg)"
    by blast
  have edge: "add_edge s (PStr a) dest lineno md ext_md = (Inl (CallGraphError msg), s1)"
    by (simp add: add_edge_def s1(1) bad)
  have "cg s a = None \<longrightarrow> s1 \<noteq> s \<and> modnames s1 a = Some md"
    using add_node_fresh [OF _ assms(2) s1(1)] s1(3) by auto
  with s1 edge show ?thesis by (intro exI [of _ s1] exI [of _ msg]) simp
qed

theorem add_edge_bad_dest_not_atomic_witness:
  "\<exists>s1 msg. add_edge init_callgraph (PStr ''f'') (PStr []) (-1) ''m'' [] = (Inl (CallGraphError msg), s1)
     \<and> cg s1 ''f'' \<noteq> None \<and> s1 \<noteq> init_callgraph \<and> modnames s1 ''f'' = Some ''m''"
  using add_edge_bad_dest_not_atomic [OF cg_inv_init, of "''f''" "PStr []" "''m''" "-1" "[]"]
  by (auto simp: valid_name_def init_callgraph_def)

section \<open>Properties of the import manager\<close>

text \<open>
  C9. \<open>create_node\<close> raises \<open>ImportManagerError\<close> exactly when the name is empty or not a
  string or the graph already has a node of that name; otherwise it inserts a node with empty
  filename and no imports, after which creating the same name again raises.
\<close>

theorem create_node_once:
  "((\<exists>msg. create_node im name = Inl (ImportManagerError msg)) \<longleftrightarrow>
      (\<not> valid_name name \<or> (\<exists>n. name = PStr n \<and> get_node im n \<noteq> None)))
   \<and> (valid_name name \<and> name = PStr n \<and> get_node im n = None \<longrightarrow>
        create_node im name =
          Inr (\<lparr>node_filename = [], node_imports = {}\<rparr>,
               im\<lparr>import_graph := (import_graph im)(n \<mapsto> \<lparr>node_filename = [], node_imports = {}\<rparr>)\<rparr>)
        \<and> (\<exists>msg. create_node
               (im\<lparr>import_graph := (import_graph im)(n \<mapsto> \<lparr>node_filename = [], node_imports = {}\<rparr>)\<rparr>)
               name = Inl (ImportManagerError msg)))"
  by (cases name; cases "get_node im (case name of PStr m \<Rightarrow> m | _ \<Rightarrow> [])")
     (auto simp: create_node_def valid_name_def get_node_def Let_def)

theorem create_node_once_witness:
  "create_node init_import_manager (PStr ''a'') =
     Inr (\<lparr>node_filename = [], node_imports = {}\<rparr>,
          init_import_manager\<lparr>import_graph := [''a'' \<mapsto> \<lparr>node_filename = [], node_imports = {}\<rparr>]\<rparr>)
   \<and> (\<exists>msg. create_node
          (init_import_manager\<lparr>import_graph := [''a'' \<mapsto> \<lparr>node_filename = [], node_imports = {}\<rparr>]\<rparr>)
          (PStr ''a'') = Inl (ImportManagerError msg))
   \<and> (\<exists>msg. create_node init_import_manager (PStr []) = Inl (ImportManagerError msg))
   \<and> (\<exists>msg. create_node init_import_manager (PInt 3) = Inl (ImportManagerError msg))"
proof -
  have a: "valid_name (PStr ''a'') \<and> PStr ''a'' = PStr ''a''
           \<and> get_node init_import_manager ''a'' = None"
    by (simp add: valid_name_def get_node_def init_import_manager_def)
  have b: "\<not> valid_name (PStr [])" "\<not> valid_name (PInt 3)"
    by (simp_all add: valid_name_def)
  have g: "import_graph init_import_manager = Map.empty"
    by (simp add: init_import_manager_def)
  from create_node_once [of init_import_manager "PStr ''a''" "''a''"] a
       create_node_once [of init_import_manager "PStr []" "[]"] b(1)
       create_node_once [of init_import_manager "PInt 3" "[]"] b(2)
  show ?thesis unfolding g by blast
qed

lemma handle_import_beyond_top:
  assumes "root_of name \<notin> set (builtin_module_names sy)"
    and "level > int (length (split_dot (current_module im)))"
  shows "handle_import h (im, sy) name level = (Inr None, (im, sy), [])"
  using assms
  by (simp add: handle_import_def handle_import_level_def get_module_path_def Let_def)

lemma split_dot_nonempty: "split_dot s \<noteq> []"
  by (induction s) (auto split: list.splits)

lemma join_dot_butlast_dotted:
  "join_dot (butlast (split_dot (CHR ''.'' # s))) = []
   \<or> startswith (join_dot (butlast (split_dot (CHR ''.'' # s)))) ''.''"
proof (cases "butlast (split_dot s)")
  case Nil
  with split_dot_nonempty [of s] show ?thesis by simp
next
  case (Cons w ws)
  with split_dot_nonempty [of s] show ?thesis by simp
qed

lemma do_import_refused:
  assumes "refuses_relative h" and "mn = [] \<or> startswith mn ''.''"
    and "sys_modules sy mn = None"
  shows "\<exists>e. do_import h (im, sy) mn [] = (Inl e, (im, sy))"
proof -
  from assms(1,2) have o: "located (import_module h sy mn []) = []"
    "isl (loaded (import_module h sy mn []))"
    "cached (import_module h sy mn []) = sys_modules sy"
    unfolding refuses_relative_def by blast+
  from o(2) obtain e where "loaded (import_module h sy mn []) = Inl e"
    by (cases "loaded (import_module h sy mn [])") auto
  with o(1,3) assms(3) show ?thesis
    by (simp add: do_import_def Let_def)
qed

lemma handle_import_at_top:
  assumes "refuses_relative h"
    and "root_of name \<notin> set (builtin_module_names sy)"
    and "\<not> is_init_file im"
    and "level = int (length (split_dot (current_module im)))"
    and "\<forall>mn. mn = [] \<or> startswith mn ''.'' \<longrightarrow> sys_modules sy mn = None"
  shows "fst (handle_import h (im, sy) name level) = Inr None
         \<and> fst (snd (handle_import h (im, sy) name level)) = (im, sy)"
proof -
  from assms(4) split_dot_nonempty [of "current_module im"] obtain n where
    n: "nat level = Suc n" "level \<ge> 1"
    by (cases "nat level") auto
  let ?mn = "replicate (nat level) CHR ''.'' @ name"
  have lvl: "handle_import_level im name level = Inr (?mn, [])"
    using assms(3,4) by (simp add: handle_import_level_def get_module_path_def slice_off_def Let_def)
  have c1: "startswith ?mn ''.''" using n by simp
  have c2: "join_dot (butlast (split_dot ?mn)) = []
            \<or> startswith (join_dot (butlast (split_dot ?mn))) ''.''"
    using n join_dot_butlast_dotted [of "replicate n CHR ''.'' @ name"] by simp
  have c3: "startswith (join_ns [] name) ''.''" "startswith (join_ns [] p) ''.''" for p
    by (simp_all add: join_ns_def)
  let ?p = "join_dot (butlast (split_dot ?mn))"
  let ?q = "join_dot (butlast (split_dot name))"
  have r1: "?mn = [] \<or> startswith ?mn ''.''" using c1 by (rule disjI2)
  have r3: "join_ns [] name = [] \<or> startswith (join_ns [] name) ''.''"
    using c3(1) by (rule disjI2)
  have r4: "join_ns [] ?q = [] \<or> startswith (join_ns [] ?q) ''.''"
    using c3(2) by (rule disjI2)
  note absent = assms(5) [rule_format]
  have s1: "sys_modules sy ?mn = None" using r1 by (rule absent)
  have s2: "sys_modules sy ?p = None" using c2 by (rule absent)
  have s3: "sys_modules sy (join_ns [] name) = None" using r3 by (rule absent)
  have s4: "sys_modules sy (join_ns [] ?q) = None" using r4 by (rule absent)
  from do_import_refused [OF assms(1) r1 s1]
  obtain e1 where d1: "do_import h (im, sy) ?mn [] = (Inl e1, (im, sy))" by (rule exE)
  from do_import_refused [OF assms(1) c2 s2]
  obtain e2 where d2: "do_import h (im, sy) ?p [] = (Inl e2, (im, sy))" by (rule exE)
  from do_import_refused [OF assms(1) r3 s3]
  obtain e3 where d3: "do_import h (im, sy) (join_ns [] name) [] = (Inl e3, (im, sy))" by (rule exE)
  from do_import_refused [OF assms(1) r4 s4]
  obtain e4 where d4: "do_import h (im, sy) (join_ns [] ?q) [] = (Inl e4, (im, sy))" by (rule exE)
  have cs: "combos name ?mn [] = [(?mn, []), (?p, []), (join_ns [] name, []), (join_ns [] ?q, [])]"
    by (simp add: combos_def Let_def)
  have tc: "try_combos h (combos name ?mn []) (im, sy) =
              (None, (im, sy), [((?mn, []), False), ((?p, []), False),
                                ((join_ns [] name, []), False), ((join_ns [] ?q, []), False)])"
    unfolding cs by (simp only: try_combos.simps d1 d2 d3 d4 prod.case sum.case)
  show ?thesis
    using assms(2)
    by (simp add: handle_import_def lvl tc Let_def del: try_combos.simps)
qed

text \<open>
  C3. In a plain module a level between 1 and the number of components of the module's
  path strips that many trailing components to get the base package. So in
  \<open>pkg.sub.mod\<close> the name \<open>x\<close> at level 1 gives the relative name
  \<open>.x\<close> with base package \<open>pkg.sub\<close> and the absolute candidate \<open>pkg.sub.x\<close>; at level 2
  it gives base package \<open>pkg\<close> and the candidate \<open>pkg.x\<close>. An import (not of a builtin)
  whose level exceeds the number of components of the current module's path returns nothing:
  no error, no load attempted, no change of state. A level equal to that number passes the
  level check of a plain module with an empty base package; on a host that refuses relative
  names without a package that import returns nothing as well.
\<close>

theorem relative_import_arithmetic:
  "(current_module im = ''pkg.sub.mod'' \<and> \<not> is_init_file im \<longrightarrow>
      handle_import_level im ''x'' 1 = Inr (''.x'', ''pkg.sub'')
      \<and> combos ''x'' ''.x'' ''pkg.sub'' ! 2 = (''pkg.sub.x'', [])
      \<and> handle_import_level im ''x'' 2 = Inr (''..x'', ''pkg'')
      \<and> combos ''x'' ''..x'' ''pkg'' ! 2 = (''pkg.x'', []))
   \<and> (\<not> is_init_file imb \<and> 1 \<le> level
        \<and> level \<le> int (length (split_dot (current_module imb))) \<longrightarrow>
      handle_import_level imb name level =
        Inr (replicate (nat level) CHR ''.'' @ name,
             join_dot (take (length (split_dot (current_module imb)) - nat level)
                         (split_dot (current_module imb)))))
   \<and> (root_of name \<notin> set (builtin_module_names sy)
        \<and> level > int (length (split_dot (current_module imb))) \<longrightarrow>
      handle_import h (imb, sy) name level = (Inr None, (imb, sy), []))
   \<and> (root_of name \<notin> set (builtin_module_names sy) \<and> \<not> is_init_file imb
        \<and> level = int (length (split_dot (current_module imb)))
        \<and> refuses_relative h
        \<and> (\<forall>mn. mn = [] \<or> startswith mn ''.'' \<longrightarrow> sys_modules sy mn = None) \<longrightarrow>
      fst (handle_import h (imb, sy) name level) = Inr None
      \<and> fst (snd (handle_import h (imb, sy) name level)) = (imb, sy))"
proof (intro conjI impI)
  assume a: "current_module im = ''pkg.sub.mod'' \<and> \<not> is_init_file im"
  show "handle_import_level im ''x'' 1 = Inr (''.x'', ''pkg.sub'')"
    using a by (simp add: handle_import_level_def get_module_path_def slice_off_def Let_def)
  show "handle_import_level im ''x'' 2 = Inr (''..x'', ''pkg'')"
    using a
    by (simp add: handle_import_level_def get_module_path_def slice_off_def Let_def
                  numeral_2_eq_2)
next
  show "combos ''x'' ''.x'' ''pkg.sub'' ! 2 = (''pkg.sub.x'', [])"
    by (simp add: combos_def join_ns_def Let_def numeral_2_eq_2)
  show "combos ''x'' ''..x'' ''pkg'' ! 2 = (''pkg.x'', [])"
    by (simp add: combos_def join_ns_def Let_def numeral_2_eq_2)
next
  assume c: "\<not> is_init_file imb \<and> 1 \<le> level
        \<and> level \<le> int (length (split_dot (current_module imb)))"
  then have "nat (int (length (split_dot (current_module imb))) - level)
             = length (split_dot (current_module imb)) - nat level"
    by arith
  with c show "handle_import_level imb name level =
        Inr (replicate (nat level) CHR ''.'' @ name,
             join_dot (take (length (split_dot (current_module imb)) - nat level)
                         (split_dot (current_module imb))))"
    by (simp add: handle_import_level_def get_module_path_def slice_off_def Let_def)
next
  assume "root_of name \<notin> set (builtin_module_names sy)
        \<and> level > int (length (split_dot (current_module imb)))"
  then show "handle_import h (imb, sy) name level = (Inr None, (imb, sy), [])"
    using handle_import_beyond_top by blast
next
  assume b: "root_of name \<notin> set (builtin_module_names sy) \<and> \<not> is_init_file imb
        \<and> level = int (length (split_dot (current_module imb)))
        \<and> refuses_relative h
        \<and> (\<forall>mn. mn = [] \<or> startswith mn ''.'' \<longrightarrow> sys_modules sy mn = None)"
  then have top: "fst (handle_import h (imb, sy) name level) = Inr None
      \<and> fst (snd (handle_import h (imb, sy) name level)) = (imb, sy)"
    by (intro handle_import_at_top) simp_all
  from top show "fst (handle_import h (imb, sy) name level) = Inr None" ..
  from top show "fst (snd (handle_import h (imb, sy) name level)) = (imb, sy)" ..
qed

theorem relative_import_arithmetic_witness:
  "handle_import_level ex_im ''x'' 1 = Inr (''.x'', ''pkg.sub'')
   \<and> combos ''x'' ''.x'' ''pkg.sub'' ! 2 = (''pkg.sub.x'', [])
   \<and> handle_import_level ex_im ''x'' 2 = Inr (''..x'', ''pkg'')
   \<and> combos ''x'' ''..x'' ''pkg'' ! 2 = (''pkg.x'', [])
   \<and> handle_import absent_host (ex_im, ex_interp) ''x'' 4 = (Inr None, (ex_im, ex_interp), [])
   \<and> fst (handle_import absent_host (ex_im, ex_interp) ''x'' 3) = Inr None
   \<and> handle_import_level ex_im ''y.z'' 2 = Inr (''..y.z'', ''pkg'')"
proof -
  have 1: "current_module ex_im = ''pkg.sub.mod'' \<and> \<not> is_init_file ex_im"
    by (simp add: ex_im_def init_import_manager_def is_init_file_def endswith_def)
  have 2: "root_of ''x'' \<notin> set (builtin_module_names ex_interp)
        \<and> 4 > int (length (split_dot (current_module ex_im)))"
    by (simp add: ex_im_def init_import_manager_def ex_interp_def root_of_def)
  have r: "refuses_relative absent_host"
    by (simp add: refuses_relative_def absent_host_def)
  have 3: "root_of ''x'' \<notin> set (builtin_module_names ex_interp) \<and> \<not> is_init_file ex_im
        \<and> 3 = int (length (split_dot (current_module ex_im)))
        \<and> refuses_relative absent_host
        \<and> (\<forall>mn. mn = [] \<or> startswith mn ''.'' \<longrightarrow> sys_modules ex_interp mn = None)"
    using r
    by (simp add: ex_im_def init_import_manager_def ex_interp_def root_of_def is_init_file_def
          endswith_def)
  from relative_import_arithmetic
         [where im = ex_im and imb = ex_im and name = "''x''" and sy = ex_interp
            and level = 4 and h = absent_host] 1 2
  have a: "handle_import_level ex_im ''x'' 1 = Inr (''.x'', ''pkg.sub'')
   \<and> combos ''x'' ''.x'' ''pkg.sub'' ! 2 = (''pkg.sub.x'', [])
   \<and> handle_import_level ex_im ''x'' 2 = Inr (''..x'', ''pkg'')
   \<and> combos ''x'' ''..x'' ''pkg'' ! 2 = (''pkg.x'', [])
   \<and> handle_import absent_host (ex_im, ex_interp) ''x'' 4 = (Inr None, (ex_im, ex_interp), [])"
    by blast
  from relative_import_arithmetic
         [where im = ex_im and imb = ex_im and name = "''x''" and sy = ex_interp
            and level = 3 and h = absent_host] 3
  have b: "fst (handle_import absent_host (ex_im, ex_interp) ''x'' 3) = Inr None"
    by blast
  have 4: "\<not> is_init_file ex_im \<and> (1::int) \<le> 2
        \<and> 2 \<le> int (length (split_dot (current_module ex_im)))"
    by (simp add: ex_im_def init_import_manager_def is_init_file_def endswith_def)
  from relative_import_arithmetic
         [where im = ex_im and imb = ex_im and name = "''y.z''" and sy = ex_interp
            and level = 2 and h = absent_host] 4
  have "handle_import_level ex_im ''y.z'' 2 =
        Inr (replicate (nat 2) CHR ''.'' @ ''y.z'',
             join_dot (take (length (split_dot (current_module ex_im)) - nat 2)
                         (split_dot (current_module ex_im))))"
    by blast
  then have c: "handle_import_level ex_im ''y.z'' 2 = Inr (''..y.z'', ''pkg'')"
    by (simp add: ex_im_def init_import_manager_def numeral_2_eq_2)
  from a b c show ?thesis by simp
qed

lemma nth_attempt_0: "nth_attempt h ((mn, pkg) # cs) st 0 = do_import h st mn pkg"
  by (simp add: nth_attempt_def)

lemma nth_attempt_Suc:
  "nth_attempt h ((mn, pkg) # cs) st (Suc j) = nth_attempt h cs (snd (do_import h st mn pkg)) j"
  by (simp add: nth_attempt_def)

text \<open>
  The loop over the candidates, for any list of them: either some call of \<open>_do_import\<close>
  returned, every call before it raised, none after it was made, and its value and state
  are the loop's; or every call raised and the loop ends with no module.
\<close>

lemma try_combos_first:
  assumes "try_combos h cs st = (r, st', tried)"
  shows "(\<exists>k<length cs. (\<forall>j<k. isl (fst (nth_attempt h cs st j)))
            \<and> nth_attempt h cs st k = (Inr r, st')
            \<and> tried = map (\<lambda>c. (c, False)) (take k cs) @ [(cs ! k, True)])
         \<or> ((\<forall>j<length cs. isl (fst (nth_attempt h cs st j)))
            \<and> r = None \<and> st' = state_after h cs st
            \<and> tried = map (\<lambda>c. (c, False)) cs)"
  using assms
proof (induction cs arbitrary: st r st' tried)
  case Nil
  then show ?case by simp
next
  case (Cons c cs)
  obtain mn pkg where c: "c = (mn, pkg)" by (cases c)
  obtain res st1 where d: "do_import h st mn pkg = (res, st1)" by (cases "do_import h st mn pkg")
  show ?case
  proof (cases res)
    case (Inr m)
    with c d Cons.prems have eq: "r = m" "st' = st1" "tried = [(c, True)]"
      by simp_all
    have "0 < length (c # cs) \<and> (\<forall>j<0. isl (fst (nth_attempt h (c # cs) st j)))
          \<and> nth_attempt h (c # cs) st 0 = (Inr r, st')
          \<and> tried = map (\<lambda>c. (c, False)) (take 0 (c # cs)) @ [((c # cs) ! 0, True)]"
      using c d Inr eq by (simp add: nth_attempt_0)
    then have "\<exists>k<length (c # cs). (\<forall>j<k. isl (fst (nth_attempt h (c # cs) st j)))
          \<and> nth_attempt h (c # cs) st k = (Inr r, st')
          \<and> tried = map (\<lambda>c. (c, False)) (take k (c # cs)) @ [((c # cs) ! k, True)]"
      by (rule exI [of _ 0])
    then show ?thesis by (rule disjI1)
  next
    case (Inl e)
    obtain r2 st2 tried2 where t: "try_combos h cs st1 = (r2, st2, tried2)"
      by (cases "try_combos h cs st1")
    with c d Inl Cons.prems have eq: "r = r2" "st' = st2" "tried = (c, False) # tried2"
      by simp_all
    have first: "isl (fst (nth_attempt h (c # cs) st 0))"
      using c d Inl by (simp add: nth_attempt_0)
    have shift: "nth_attempt h (c # cs) st (Suc j) = nth_attempt h cs st1 j" for j
      using c d by (simp add: nth_attempt_Suc)
    have upto: "\<forall>j<Suc n. isl (fst (nth_attempt h (c # cs) st j))"
      if "\<forall>j<n. isl (fst (nth_attempt h cs st1 j))" for n
    proof (intro allI impI)
      fix j assume "j < Suc n"
      with that first shift show "isl (fst (nth_attempt h (c # cs) st j))"
        by (cases j) simp_all
    qed
    from Cons.IH [OF t] show ?thesis
    proof (elim disjE exE conjE)
      fix k
      assume k: "k < length cs" "\<forall>j<k. isl (fst (nth_attempt h cs st1 j))"
        "nth_attempt h cs st1 k = (Inr r2, st2)"
        "tried2 = map (\<lambda>c. (c, False)) (take k cs) @ [(cs ! k, True)]"
      have "Suc k < length (c # cs) \<and> (\<forall>j<Suc k. isl (fst (nth_attempt h (c # cs) st j)))
          \<and> nth_attempt h (c # cs) st (Suc k) = (Inr r, st')
          \<and> tried = map (\<lambda>c. (c, False)) (take (Suc k) (c # cs)) @ [((c # cs) ! Suc k, True)]"
        using k upto [OF k(2)] shift eq by simp
      then have "\<exists>i<length (c # cs). (\<forall>j<i. isl (fst (nth_attempt h (c # cs) st j)))
          \<and> nth_attempt h (c # cs) st i = (Inr r, st')
          \<and> tried = map (\<lambda>c. (c, False)) (take i (c # cs)) @ [((c # cs) ! i, True)]"
        by (rule exI [of _ "Suc k"])
      then show ?thesis by (rule disjI1)
    next
      assume a: "\<forall>j<length cs. isl (fst (nth_attempt h cs st1 j))" "r2 = None"
        "st2 = state_after h cs st1" "tried2 = map (\<lambda>c. (c, False)) cs"
      have "(\<forall>j<length (c # cs). isl (fst (nth_attempt h (c # cs) st j)))
          \<and> r = None \<and> st' = state_after h (c # cs) st
          \<and> tried = map (\<lambda>c. (c, False)) (c # cs)"
        using a upto [OF a(1)] eq c d by simp
      then show ?thesis by (rule disjI2)
    qed
  qed
qed

text \<open>
  C5. For an import that is not of a builtin and whose level step succeeded with relative
  name \<open>mod_name\<close> and base package \<open>base\<close>, \<open>_do_import\<close> is called on the candidates
  \<open>mod_name\<close> with \<open>base\<close>; the parent of \<open>mod_name\<close> with \<open>base\<close>; the name joined under
  \<open>base\<close> with no package; the parent of the name joined the same way; in this order, each
  in the state the calls before it left. Either the call for one of the four returned
  while the call for every candidate before it raised: then no later candidate is tried,
  the state is the one this call left, and the result is computed from the value it
  returned (nothing, if that is \<open>None\<close>). Or all four calls raised: then \<open>handle_import\<close>
  returns nothing, without an error, in the state the four calls left. The list \<open>tried\<close>
  of the candidates handed to \<open>_do_import\<close> agrees with this.
\<close>

theorem handle_import_candidates:
  assumes "root_of name \<notin> set (builtin_module_names sy)"
    and "handle_import_level im name level = Inr (mod_name, base)"
    and "cands = [(mod_name, base),
                  (join_dot (butlast (split_dot mod_name)), base),
                  (join_ns base name, []),
                  (join_ns base (join_dot (butlast (split_dot name))), [])]"
    and "handle_import h (im, sy) name level = (res, st', tried)"
  shows "(\<exists>k<4. (\<forall>j<k. isl (fst (nth_attempt h cands (im, sy) j)))
            \<and> (\<exists>m. nth_attempt h cands (im, sy) k = (Inr m, st')
                  \<and> res = (case m of None \<Rightarrow> Inr None
                           | Some found \<Rightarrow> resolved_name h (fst st') found))
            \<and> tried = map (\<lambda>c. (c, False)) (take k cands) @ [(cands ! k, True)])
         \<or> ((\<forall>j<4. isl (fst (nth_attempt h cands (im, sy) j)))
            \<and> res = Inr None \<and> st' = state_after h cands (im, sy)
            \<and> tried = map (\<lambda>c. (c, False)) cands)"
proof -
  have cs: "combos name mod_name base = cands"
    by (simp add: combos_def assms(3) Let_def)
  obtain r st1 tr where t: "try_combos h cands (im, sy) = (r, st1, tr)"
    by (cases "try_combos h cands (im, sy)")
  have len: "length cands = 4" by (simp add: assms(3))
  obtain im1 sy1 where st1: "st1 = (im1, sy1)" by (cases st1)
  have "tried = tr \<and> st' = st1
    \<and> res = (case r of None \<Rightarrow> Inr None | Some found \<Rightarrow> resolved_name h (fst st1) found)"
    using assms(1,2,4) cs t st1
    by (cases r) (auto simp add: handle_import_def Let_def)
  then have out: "tried = tr" "st' = st1"
    "res = (case r of None \<Rightarrow> Inr None | Some found \<Rightarrow> resolved_name h (fst st1) found)"
    by simp_all
  from try_combos_first [OF t] show ?thesis
    unfolding len
  proof (elim disjE exE conjE)
    fix k
    assume k: "k < 4" "\<forall>j<k. isl (fst (nth_attempt h cands (im, sy) j))"
      "nth_attempt h cands (im, sy) k = (Inr r, st1)"
      "tr = map (\<lambda>c. (c, False)) (take k cands) @ [(cands ! k, True)]"
    have "\<exists>m. nth_attempt h cands (im, sy) k = (Inr m, st')
            \<and> res = (case m of None \<Rightarrow> Inr None | Some found \<Rightarrow> resolved_name h (fst st') found)"
      using k(3) out by (intro exI [of _ r]) (simp split: option.splits)
    with k out have "k < 4 \<and> (\<forall>j<k. isl (fst (nth_attempt h cands (im, sy) j)))
            \<and> (\<exists>m. nth_attempt h cands (im, sy) k = (Inr m, st')
                  \<and> res = (case m of None \<Rightarrow> Inr None
                           | Some found \<Rightarrow> resolved_name h (fst st') found))
            \<and> tried = map (\<lambda>c. (c, False)) (take k cands) @ [(cands ! k, True)]"
      by simp
    then have "\<exists>k<4. (\<forall>j<k. isl (fst (nth_attempt h cands (im, sy) j)))
            \<and> (\<exists>m. nth_attempt h cands (im, sy) k = (Inr m, st')
                  \<and> res = (case m of None \<Rightarrow> Inr None
                           | Some found \<Rightarrow> resolved_name h (fst st') found))
            \<and> tried = map (\<lambda>c. (c, False)) (take k cands) @ [(cands ! k, True)]"
      by (rule exI [of _ k])
    then show ?thesis by (rule disjI1)
  next
    assume "\<forall>j<4. isl (fst (nth_attempt h cands (im, sy) j))" "r = None"
      "st1 = state_after h cands (im, sy)" "tr = map (\<lambda>c. (c, False)) cands"
    with out have "(\<forall>j<4. isl (fst (nth_attempt h cands (im, sy) j)))
            \<and> res = Inr None \<and> st' = state_after h cands (im, sy)
            \<and> tried = map (\<lambda>c. (c, False)) cands"
      by simp
    then show ?thesis by (rule disjI2)
  qed
qed

theorem handle_import_candidates_witness:
  "handle_import absent_host (ex_im, ex_interp) ''x'' 1 =
     (Inr None, (ex_im, ex_interp),
      [((''.x'', ''pkg.sub''), False), (([], ''pkg.sub''), False),
       ((''pkg.sub.x'', []), False), ((''pkg.sub.'', []), False)])
   \<and> handle_import nested_host (nested_im, ex_interp) ''x'' 1 =
     (Inr (Some ''pkg.sub.x''),
      snd (do_import nested_host (nested_im, ex_interp) ''pkg.sub.x'' []),
      [((''.x'', ''pkg.sub''), False), (([], ''pkg.sub''), False),
       ((''pkg.sub.x'', []), True)])
   \<and> get_imports (fst (fst (snd (handle_import nested_host (nested_im, ex_interp) ''x'' 1))))
        ''pkg.sub.mod'' = {''pkg.sub.x''}"
proof -
  let ?cands = "[(''.x'', ''pkg.sub''), ([], ''pkg.sub''), (''pkg.sub.x'', []), (''pkg.sub.'', [])]"
  have cands: "?cands = [(''.x'', ''pkg.sub''), (join_dot (butlast (split_dot ''.x'')), ''pkg.sub''),
            (join_ns ''pkg.sub'' ''x'', []),
            (join_ns ''pkg.sub'' (join_dot (butlast (split_dot ''x''))), [])]"
    by (simp add: join_ns_def)
  have 1: "root_of ''x'' \<notin> set (builtin_module_names ex_interp)"
    by (simp add: ex_interp_def root_of_def)
  have 2: "handle_import_level ex_im ''x'' 1 = Inr (''.x'', ''pkg.sub'')"
    by (simp add: handle_import_level_def get_module_path_def slice_off_def Let_def
          ex_im_def init_import_manager_def is_init_file_def endswith_def)
  have 5: "handle_import_level nested_im ''x'' 1 = Inr (''.x'', ''pkg.sub'')"
    by (simp add: handle_import_level_def get_module_path_def slice_off_def Let_def
          nested_im_def init_import_manager_def is_init_file_def endswith_def)
  obtain res st' tried where
    3: "handle_import absent_host (ex_im, ex_interp) ''x'' 1 = (res, st', tried)"
    by (cases "handle_import absent_host (ex_im, ex_interp) ''x'' 1")
  obtain res2 st2 tried2 where
    4: "handle_import nested_host (nested_im, ex_interp) ''x'' 1 = (res2, st2, tried2)"
    by (cases "handle_import nested_host (nested_im, ex_interp) ''x'' 1")
  have absent: "do_import absent_host (ex_im, ex_interp) mn pkg
                  = (Inl (HostError ''ModuleNotFoundError''), (ex_im, ex_interp))" for mn pkg
    by (simp add: do_import_def absent_host_def ex_interp_def Let_def)
  have refused: "do_import nested_host (nested_im, ex_interp) mn ''pkg.sub''
                  = (Inl (HostError ''ModuleNotFoundError''), (nested_im, ex_interp))" for mn
    by (simp add: do_import_def nested_host_def ex_interp_def Let_def)
  have found: "fst (do_import nested_host (nested_im, ex_interp) ''pkg.sub.x'' [])
                  = Inr (Some \<lparr>mod_file = FileStr ''/r/pkg/sub/x.py''\<rparr>)"
    by (simp add: do_import_def nested_host_def ex_interp_def Let_def nested_im_def
          init_import_manager_def custom_loader_init_def create_edge_def get_node_def
          get_module_path_def create_node_def set_filepath_def)
  have kept: "mod_dir (fst (snd (do_import nested_host (nested_im, ex_interp) ''pkg.sub.x'' [])))
                  = Some ''/r''"
    and edge: "get_imports (fst (snd (do_import nested_host (nested_im, ex_interp) ''pkg.sub.x'' [])))
                  ''pkg.sub.mod'' = {''pkg.sub.x''}"
    by (simp_all add: do_import_def nested_host_def ex_interp_def Let_def nested_im_def
          init_import_manager_def custom_loader_init_def create_edge_def get_node_def
          get_module_path_def create_node_def set_filepath_def get_imports_def)
  have name: "resolved_name nested_host im \<lparr>mod_file = FileStr ''/r/pkg/sub/x.py''\<rparr>
                  = Inr (Some ''pkg.sub.x'')" if "mod_dir im = Some ''/r''" for im
    using that by (simp add: resolved_name_def nested_host_def endswith_def Let_def)
  from handle_import_candidates [OF 1 2 cands 3] cands
  have a: "res = Inr None \<and> st' = (ex_im, ex_interp)
           \<and> tried = map (\<lambda>c. (c, False)) ?cands"
    by (simp add: eval_nat_numeral All_less_Suc Ex_less_Suc nth_attempt_def absent)
  from handle_import_candidates [OF 1 5 cands 4] cands
  have b: "res2 = Inr (Some ''pkg.sub.x'')
           \<and> st2 = snd (do_import nested_host (nested_im, ex_interp) ''pkg.sub.x'' [])
           \<and> tried2 = [((''.x'', ''pkg.sub''), False), (([], ''pkg.sub''), False),
                       ((''pkg.sub.x'', []), True)]"
    using found kept name
    by (auto simp add: eval_nat_numeral All_less_Suc Ex_less_Suc nth_attempt_def refused
          prod_eq_iff)
  from a b 3 4 edge show ?thesis by simp
qed

text \<open>
  Where the code does reject: a loaded module with no file path, or one whose path does not
  contain the root string, makes \<open>handle_import\<close> return nothing, in the state the load
  attempts left; and \<open>create_edge\<close> puts its edge on the current module.
\<close>

lemma handle_import_rejects:
  assumes "root_of name \<notin> set (builtin_module_names sy)"
    and "handle_import_level im name level = Inr (mod_name, base)"
    and "try_combos h (combos name mod_name base) (im, sy) = (Some m, (im', sy'), tried)"
    and "mod_file m = NoAttr \<or> mod_file m = FileNone \<or> mod_file m = FileStr []
         \<or> (\<exists>d f. mod_dir im' = Some d \<and> mod_file m = FileStr f \<and> \<not> str_contains f d)"
  shows "handle_import h (im, sy) name level = (Inr None, (im', sy'), tried)"
  using assms
  by (auto simp: handle_import_def resolved_name_def Let_def)

lemma create_edge_records:
  assumes "create_edge im (PStr d) = Inr im'"
  shows "d \<in> get_imports im' (current_module im) \<and> current_module im' = current_module im"
  using assms
  by (auto simp: create_edge_def get_imports_def get_node_def get_module_path_def
           split: if_splits option.splits)

text \<open>
  C4 (the code at a path outside the root). With package root \<open>/a\<close> the host finds module
  \<open>x\<close> at \<open>/ab/x.py\<close>. The path lies outside the root, yet the root string occurs in it, so
  the containment test of line 227 lets it pass: \<open>handle_import\<close> returns the dotted name
  that \<open>to_mod_name\<close> makes of \<open>../ab/x.py\<close>. The edge to \<open>x\<close> is in the import graph.
\<close>

theorem handle_import_outside_root_accepted:
  "\<not> spec_inside_root ''/a'' ''/ab/x.py''
   \<and> mod_dir rooted_im = Some ''/a''
   \<and> fst (handle_import sibling_host (rooted_im, ex_interp) ''x'' 0) = Inr (Some ''...ab.x'')
   \<and> get_imports (fst (fst (snd (handle_import sibling_host (rooted_im, ex_interp) ''x'' 0)))) ''m''
        = {''x''}"
  by (simp add: spec_inside_root_def handle_import_def handle_import_level_def combos_def
        join_ns_def do_import_def custom_loader_init_def create_edge_def create_node_def
        set_filepath_def get_node_def get_module_path_def get_imports_def resolved_name_def
        slice_off_def root_of_def is_init_file_def endswith_def
        sibling_host_def rooted_im_def init_import_manager_def ex_interp_def Let_def)

section \<open>Properties of the driver\<close>

lemma fold_update_keys:
  "distinct (map fst acc) \<Longrightarrow>
     distinct (map fst (fold (\<lambda>(k, v). AList.update k (f k v)) xs acc))"
  by (induction xs arbitrary: acc) (auto simp: distinct_update)

lemma check_defs_iff:
  "check_defs al prev \<longleftrightarrow> (\<forall>(k, v) \<in> set al. map_of (s_defs prev) k = Some v)"
  by (induction al prev rule: check_defs.induct) (auto split: option.splits)

lemma check_scopes_iff:
  "check_scopes al prev \<longleftrightarrow> (\<forall>(k, v) \<in> set al. map_of (s_scopes prev) k = Some v)"
  by (induction al prev rule: check_scopes.induct) (auto split: option.splits)

lemma check_classes_iff:
  "check_classes al prev \<longleftrightarrow> (\<forall>(k, v) \<in> set al. map_of (s_classes prev) k = Some v)"
  by (induction al prev rule: check_classes.induct) (auto split: option.splits)

lemma extract_state_distinct:
  "distinct (map fst (s_defs (extract_state st)))
   \<and> distinct (map fst (s_scopes (extract_state st)))
   \<and> distinct (map fst (s_classes (extract_state st)))"
  using fold_update_keys [of "[]" "\<lambda>k d. \<lparr>names = name_pointer d, lit = lit_pointer d\<rparr>" "defs st"]
        fold_update_keys [of "[]" "\<lambda>k scope. set (map (\<lambda>(_, x). def_ns x) scope)" "scopes st"]
        fold_update_keys [of "[]" "\<lambda>k ch. ch" "classes st"]
  by (simp add: extract_state_def)

lemma has_converged_iff:
  "has_converged prior st \<longleftrightarrow>
     (\<exists>prev. prior = Some prev
        \<and> (\<forall>(k, v) \<in> set (s_defs (extract_state st)). map_of (s_defs prev) k = Some v)
        \<and> (\<forall>(k, v) \<in> set (s_scopes (extract_state st)). map_of (s_scopes prev) k = Some v)
        \<and> (\<forall>(k, v) \<in> set (s_classes (extract_state st)). map_of (s_classes prev) k = Some v))"
  by (cases prior)
     (simp_all add: has_converged_def Let_def check_defs_iff check_scopes_iff check_classes_iff)

lemma has_converged_consecutive: "has_converged (Some (extract_state st)) st"
  using extract_state_distinct [of st]
  by (auto simp: has_converged_iff)

text \<open>
  C1 as stated fails: a key of the prior snapshot that the current one lacks does not make
  \<open>has_converged\<close> false. The prior snapshot holds a definition \<open>a\<close>, the current stores
  are empty, and the result is true.
\<close>

theorem has_converged_one_sided:
  "has_converged (Some prior0) stores0
   \<and> ''a'' \<in> fst ` set (s_defs prior0)
   \<and> ''a'' \<notin> fst ` set (s_defs (extract_state stores0))"
  by (simp add: has_converged_def extract_state_def prior0_def stores0_def)

text \<open>
  C1, amended. \<open>has_converged\<close> is true exactly when there is a prior snapshot and every
  key of the current snapshot (definitions, scopes, classes) is in the prior one with an
  equal value. So a snapshot compared with the stores it was just taken from has converged,
  and a key that only the current snapshot has makes the result false. Keys that only the
  prior snapshot has are not looked at.
\<close>

theorem has_converged_one_directional:
  "(has_converged prior st \<longleftrightarrow>
      (\<exists>prev. prior = Some prev
         \<and> (\<forall>(k, v) \<in> set (s_defs (extract_state st)). map_of (s_defs prev) k = Some v)
         \<and> (\<forall>(k, v) \<in> set (s_scopes (extract_state st)). map_of (s_scopes prev) k = Some v)
         \<and> (\<forall>(k, v) \<in> set (s_classes (extract_state st)). map_of (s_classes prev) k = Some v)))
   \<and> has_converged (Some (extract_state st)) st
   \<and> (k \<in> fst ` set (s_defs (extract_state st)) \<and> map_of (s_defs prev) k = None
        \<longrightarrow> \<not> has_converged (Some prev) st)
   \<and> (k \<in> fst ` set (s_scopes (extract_state st)) \<and> map_of (s_scopes prev) k = None
        \<longrightarrow> \<not> has_converged (Some prev) st)
   \<and> (k \<in> fst ` set (s_classes (extract_state st)) \<and> map_of (s_classes prev) k = None
        \<longrightarrow> \<not> has_converged (Some prev) st)"
proof (intro conjI impI)
  show "has_converged prior st \<longleftrightarrow>
      (\<exists>prev. prior = Some prev
         \<and> (\<forall>(k, v) \<in> set (s_defs (extract_state st)). map_of (s_defs prev) k = Some v)
         \<and> (\<forall>(k, v) \<in> set (s_scopes (extract_state st)). map_of (s_scopes prev) k = Some v)
         \<and> (\<forall>(k, v) \<in> set (s_classes (extract_state st)). map_of (s_classes prev) k = Some v))"
    by (rule has_converged_iff)
  show "has_converged (Some (extract_state st)) st"
    by (rule has_converged_consecutive)
next
  assume "k \<in> fst ` set (s_defs (extract_state st)) \<and> map_of (s_defs prev) k = None"
  then show "\<not> has_converged (Some prev) st"
    by (fastforce simp: has_converged_iff)
next
  assume "k \<in> fst ` set (s_scopes (extract_state st)) \<and> map_of (s_scopes prev) k = None"
  then show "\<not> has_converged (Some prev) st"
    by (fastforce simp: has_converged_iff)
next
  assume "k \<in> fst ` set (s_classes (extract_state st)) \<and> map_of (s_classes prev) k = None"
  then show "\<not> has_converged (Some prev) st"
    by (fastforce simp: has_converged_iff)
qed

theorem has_converged_one_directional_witness:
  "has_converged (Some (extract_state stores1)) stores1
   \<and> \<not> has_converged (Some (extract_state stores0)) stores1
   \<and> \<not> has_converged None stores1"
proof -
  have k: "''m.f'' \<in> fst ` set (s_defs (extract_state stores1))
        \<and> map_of (s_defs (extract_state stores0)) ''m.f'' = None"
    by (simp add: extract_state_def stores1_def stores0_def)
  from has_converged_one_directional [of None stores1 "''m.f''" "extract_state stores0"] k
  show ?thesis by auto
qed



lemma install_hooks_unbound:
  assumes "\<not> importlib_abc sy"
  shows "install_hooks h (im, sy) = (Inl (HostError ''AttributeError''), (im, sy))"
  using assms by (simp add: install_hooks_def)








lemma iteration_keeps_config:
  assumes "iteration C h g = (r, g')"
  shows "max_iter g' = max_iter g \<and> entry_points g' = entry_points g
         \<and> package g' = package g \<and> operation g' = operation g"
  using assms
  by (auto simp: iteration_def reset_counters_def Let_def split: prod.splits sum.splits)

lemma fixpoint_loop_zero_cap:
  "max_iter g = 0 \<Longrightarrow> fixpoint_loop C h 0 g = Some (Inr 0, g)"
  by (subst fixpoint_loop.simps) (simp add: loop_cond_def)

lemma ran_while_step:
  assumes "loop_cond g i" and "iteration C h g = (Inr (), g1)" and "ran_while C h (i + 1) g1 k"
  shows "ran_while C h i g (Suc k)"
  unfolding ran_while_def
proof (intro allI impI)
  fix m assume m: "m < Suc k"
  show "\<exists>gm. iterations C h m g = (Inr (), gm) \<and> loop_cond gm (i + int m)"
  proof (cases m)
    case 0
    with assms(1) show ?thesis by simp
  next
    case (Suc n)
    with m have "n < k" by simp
    with assms(3) obtain gm where
      "iterations C h n g1 = (Inr (), gm)" "loop_cond gm (i + 1 + int n)"
      unfolding ran_while_def by blast
    with Suc assms(2) show ?thesis by (simp add: add.commute add.left_commute)
  qed
qed

lemma fixpoint_loop_sound:
  assumes "fixpoint_loop C h i g = Some y"
  shows "loop_post C h i g y"
proof (rule fixpoint_loop.raw_induct [where P = loop_post, OF _ assms])
  fix loop :: "'a collab \<Rightarrow> host \<Rightarrow> int \<Rightarrow> 'a generator \<Rightarrow> ((error + int) \<times> 'a generator) option"
  fix C h i g y
  assume ih: "\<And>C h i g y. loop C h i g = Some y \<Longrightarrow> loop_post C h i g y"
  assume body: "(if loop_cond g i
      then case iteration C h g of (Inl e, g') \<Rightarrow> Some (Inl e, g')
           | (Inr x, g') \<Rightarrow> loop C h (i + 1) g'
      else Some (Inr i, g)) = Some y"
  show "loop_post C h i g y"
  proof (cases "loop_cond g i")
    case False
    with body have y: "y = (Inr i, g)" by simp
    have "i = i + int 0 \<and> iterations C h 0 g = (Inr (), g) \<and> \<not> loop_cond g i
          \<and> ran_while C h i g 0"
      using False by (simp add: ran_while_def)
    then show ?thesis unfolding y loop_post_def prod.case sum.case by (rule exI [of _ 0])
  next
    case True
    obtain r g1 where it: "iteration C h g = (r, g1)" by (cases "iteration C h g")
    show ?thesis
    proof (cases r)
      case (Inl e)
      with True it body have y: "y = (Inl e, g1)" by simp
      have "iterations C h (Suc 0) g = (Inl e, g1) \<and> ran_while C h i g (Suc 0)"
        using True it Inl by (simp add: ran_while_def)
      then show ?thesis unfolding y loop_post_def prod.case sum.case by (rule exI [of _ 0])
    next
      case (Inr u)
      with True it body have rec: "loop C h (i + 1) g1 = Some y" by simp
      from it Inr have it': "iteration C h g = (Inr (), g1)" by simp
      note post = ih [OF rec]
      obtain res g' where y: "y = (res, g')" by (cases y)
      show ?thesis
      proof (cases res)
        case (Inr j)
        with post y obtain k where k: "j = i + 1 + int k" "iterations C h k g1 = (Inr (), g')"
          "\<not> loop_cond g' j" "ran_while C h (i + 1) g1 k"
          unfolding loop_post_def by auto
        have "j = i + int (Suc k) \<and> iterations C h (Suc k) g = (Inr (), g')
              \<and> \<not> loop_cond g' j \<and> ran_while C h i g (Suc k)"
          using k it' ran_while_step [OF True it' k(4)] by simp
        then show ?thesis
          unfolding y Inr loop_post_def prod.case sum.case by (rule exI [of _ "Suc k"])
      next
        case (Inl e)
        with post y obtain k where k: "iterations C h (Suc k) g1 = (Inl e, g')"
          "ran_while C h (i + 1) g1 (Suc k)"
          unfolding loop_post_def by auto
        have "iterations C h (Suc (Suc k)) g = (Inl e, g') \<and> ran_while C h i g (Suc (Suc k))"
          using k it' ran_while_step [OF True it' k(2)] by simp
        then show ?thesis
          unfolding y Inl loop_post_def prod.case sum.case by (rule exI [of _ "Suc k"])
      qed
    qed
  qed
qed

lemma fixpoint_loop_complete:
  assumes "iterations C h k g = (Inr (), g')" and "\<not> loop_cond g' (i + int k)"
    and "ran_while C h i g k"
  shows "fixpoint_loop C h i g = Some (Inr (i + int k), g')"
  using assms
proof (induction k arbitrary: i g)
  case 0
  then show ?case by (subst fixpoint_loop.simps) simp
next
  case (Suc k)
  from Suc.prems(3) have c: "loop_cond g i"
    unfolding ran_while_def by force
  obtain r g1 where it: "iteration C h g = (r, g1)" by (cases "iteration C h g")
  with Suc.prems(1) have r: "r = Inr ()" and rest: "iterations C h k g1 = (Inr (), g')"
    by (cases r; simp)+
  have rw: "ran_while C h (i + 1) g1 k"
    unfolding ran_while_def
  proof (intro allI impI)
    fix m assume "m < k"
    then have "Suc m < Suc k" by simp
    with Suc.prems(3) obtain gm where
      "iterations C h (Suc m) g = (Inr (), gm)" "loop_cond gm (i + int (Suc m))"
      unfolding ran_while_def by blast
    with it r show "\<exists>gm. iterations C h m g1 = (Inr (), gm) \<and> loop_cond gm (i + 1 + int m)"
      by (simp add: add.commute add.left_commute)
  qed
  from Suc.prems(2) have "\<not> loop_cond g' (i + 1 + int k)"
    by (simp add: add.commute add.left_commute)
  from Suc.IH [OF rest this rw] have "fixpoint_loop C h (i + 1) g1 = Some (Inr (i + 1 + int k), g')" .
  with c it r show ?case
    by (subst fixpoint_loop.simps) (simp add: add.commute add.left_commute)
qed

lemma fixpoint_loop_capped:
  assumes "0 \<le> max_iter g"
  shows "\<exists>y. fixpoint_loop C h i g = Some y"
  using assms
proof (induction "nat (max_iter g - i)" arbitrary: i g)
  case 0
  then have "\<not> loop_cond g i" by (simp add: loop_cond_def)
  then show ?case by (subst fixpoint_loop.simps) simp
next
  case (Suc n)
  show ?case
  proof (cases "loop_cond g i")
    case False
    then show ?thesis by (subst fixpoint_loop.simps) simp
  next
    case True
    obtain r g1 where it: "iteration C h g = (r, g1)" by (cases "iteration C h g")
    from iteration_keeps_config [OF it] have m: "max_iter g1 = max_iter g" by simp
    show ?thesis
    proof (cases r)
      case (Inl e)
      with True it show ?thesis by (subst fixpoint_loop.simps) simp
    next
      case (Inr u)
      from Suc.hyps(2) m have "n = nat (max_iter g1 - (i + 1))" by simp
      from Suc.hyps(1) [OF this] Suc.prems m
      obtain y where "fixpoint_loop C h (i + 1) g1 = Some y" by auto
      with True it Inr show ?thesis by (subst fixpoint_loop.simps) simp
    qed
  qed
qed

lemma preprocess_keeps_config:
  assumes "preprocess_stage C h g = (r, g')"
  shows "max_iter g' = max_iter g \<and> operation g' = operation g
         \<and> entry_points g' = entry_points g \<and> package g' = package g \<and> state g' = state g"
  using assms
  by (auto simp: preprocess_stage_def split: prod.splits sum.splits)

lemma reset_counters0: "reset_counters collab0 (generator0 n\<lparr>state := s\<rparr>) = generator0 n\<lparr>state := s\<rparr>"
  by (simp add: reset_counters_def collab0_def generator0_def world0_def stores0_def)

lemma iteration0:
  "iteration collab0 plain_host (generator0 n\<lparr>state := s\<rparr>)
     = (Inr (), generator0 n\<lparr>state := Some (extract_state stores0)\<rparr>)"
proof -
  have w: "w_stores (world (generator0 n\<lparr>state := s\<rparr>)) = stores0"
    by (simp add: generator0_def world0_def)
  have g: "generator0 n\<lparr>state := s, state := Some (extract_state stores0)\<rparr>
           = generator0 n\<lparr>state := Some (extract_state stores0)\<rparr>"
    by simp
  have p: "do_pass plain_host quiet_pass False (Some ''/r'') [''/r/a.py'', ''/r/b.py''] {} world0
             = (Inr (), world0, [Run ''a'', Run ''b''])"
    by (simp add: get_mod_name_def plain_host_def quiet_pass_def endswith_def Let_def)
  have f: "package (generator0 n\<lparr>state := Some (extract_state stores0)\<rparr>) = Some ''/r''"
    "entry_points (generator0 n\<lparr>state := Some (extract_state stores0)\<rparr>) = [''/r/a.py'', ''/r/b.py'']"
    "world (generator0 n\<lparr>state := Some (extract_state stores0)\<rparr>) = world0"
    "postprocessor collab0 = quiet_pass"
    "complete_definitions collab0 world0 = world0"
    by (simp_all add: generator0_def collab0_def)
  show ?thesis
    unfolding iteration_def Let_def w g reset_counters0 f p
    by (simp add: generator0_def f(5) del: do_pass.simps)
qed

text \<open>
  C2. The loop condition is \<open>(max_iter < 0 or iter_cnt < max_iter) and not has_converged()\<close>.
  The loop returns normally with count \<open>j\<close> and state \<open>g'\<close> exactly when some number
  \<open>k\<close> of bodies ran from \<open>g\<close> to \<open>g'\<close>, the condition held before each of them and fails
  at \<open>g'\<close>, and \<open>j\<close> is the start count plus \<open>k\<close>. With a cap (\<open>max_iter\<close> not negative)
  the loop always returns. With \<open>max_iter = 0\<close> it returns at once with count 0 and the state
  unchanged. Whenever the loop returns normally, because of the cap or of convergence,
  \<open>analyze\<close> goes on to the terminal pass with the state the loop left; for
  \<open>max_iter = 0\<close> that is the state after the preprocessing stage.
\<close>

theorem fixpoint_loop_exact:
  "loop_cond g i =
     ((max_iter g < 0 \<or> i < max_iter g) \<and> \<not> has_converged (state g) (w_stores (world g)))
   \<and> (fixpoint_loop C h i g = Some (Inr j, g') \<longleftrightarrow>
        (\<exists>k. j = i + int k \<and> iterations C h k g = (Inr (), g')
             \<and> \<not> loop_cond g' j \<and> ran_while C h i g k))
   \<and> (0 \<le> max_iter g \<longrightarrow> (\<exists>y. fixpoint_loop C h i g = Some y))
   \<and> (max_iter g = 0 \<longrightarrow> fixpoint_loop C h 0 g = Some (Inr 0, g))
   \<and> (preprocess_stage C h g0 = (Inr (), g) \<and> fixpoint_loop C h 0 g = Some (Inr j, g')
        \<longrightarrow> analyze C h g0 = Some (terminal_pass C h g'))
   \<and> (preprocess_stage C h g0 = (Inr (), g) \<and> max_iter g0 = 0
        \<longrightarrow> analyze C h g0 = Some (terminal_pass C h g))"
proof (intro conjI impI)
  show "loop_cond g i =
     ((max_iter g < 0 \<or> i < max_iter g) \<and> \<not> has_converged (state g) (w_stores (world g)))"
    by (simp add: loop_cond_def)
  show "fixpoint_loop C h i g = Some (Inr j, g') \<longleftrightarrow>
        (\<exists>k. j = i + int k \<and> iterations C h k g = (Inr (), g')
             \<and> \<not> loop_cond g' j \<and> ran_while C h i g k)"
  proof
    assume "fixpoint_loop C h i g = Some (Inr j, g')"
    from fixpoint_loop_sound [OF this] show
      "\<exists>k. j = i + int k \<and> iterations C h k g = (Inr (), g')
             \<and> \<not> loop_cond g' j \<and> ran_while C h i g k"
      by (simp add: loop_post_def)
  next
    assume "\<exists>k. j = i + int k \<and> iterations C h k g = (Inr (), g')
             \<and> \<not> loop_cond g' j \<and> ran_while C h i g k"
    then obtain k where "j = i + int k" "iterations C h k g = (Inr (), g')"
      "\<not> loop_cond g' (i + int k)" "ran_while C h i g k"
      by blast
    with fixpoint_loop_complete [of C h k g g' i]
    show "fixpoint_loop C h i g = Some (Inr j, g')" by simp
  qed
next
  assume "0 \<le> max_iter g"
  then show "\<exists>y. fixpoint_loop C h i g = Some y" by (rule fixpoint_loop_capped)
next
  assume "max_iter g = 0"
  then show "fixpoint_loop C h 0 g = Some (Inr 0, g)" by (rule fixpoint_loop_zero_cap)
next
  assume "preprocess_stage C h g0 = (Inr (), g) \<and> fixpoint_loop C h 0 g = Some (Inr j, g')"
  then show "analyze C h g0 = Some (terminal_pass C h g')"
    by (simp add: analyze_def)
next
  assume a: "preprocess_stage C h g0 = (Inr (), g) \<and> max_iter g0 = 0"
  with preprocess_keeps_config [of C h g0 "Inr ()" g] have "max_iter g = 0" by simp
  from fixpoint_loop_zero_cap [OF this, of C h] a
  show "analyze C h g0 = Some (terminal_pass C h g)"
    by (simp add: analyze_def)
qed

theorem fixpoint_loop_exact_witness:
  "analyze collab0 plain_host (generator0 0)
     = Some (terminal_pass collab0 plain_host (snd (preprocess_stage collab0 plain_host (generator0 0))))
   \<and> fixpoint_loop collab0 plain_host 0 (generator0 0) = Some (Inr 0, generator0 0)
   \<and> fixpoint_loop collab0 plain_host 0 (generator0 5)
       = Some (Inr 1, generator0 5\<lparr>state := Some (extract_state stores0)\<rparr>)
   \<and> (\<exists>y. fixpoint_loop collab0 plain_host 0 (generator0 5) = Some y)"
proof -
  let ?g1 = "generator0 5\<lparr>state := Some (extract_state stores0)\<rparr>"
  let ?g = "snd (preprocess_stage collab0 plain_host (generator0 0))"
  have "fst (preprocess_stage collab0 plain_host (generator0 0)) = Inr ()"
    by (simp add: preprocess_stage_def generator0_def collab0_def get_mod_name_def plain_host_def
          quiet_pass_def world0_def ex_interp_def install_hooks_def remove_hooks_def set_pkg_def
          clear_caches_def init_import_manager_def endswith_def Let_def)
  then have pre: "preprocess_stage collab0 plain_host (generator0 0) = (Inr (), ?g)
             \<and> max_iter (generator0 0) = 0"
    by (simp add: prod_eq_iff generator0_def)
  have m0: "max_iter (generator0 0) = 0" and m5: "0 \<le> max_iter (generator0 5)"
    by (simp_all add: generator0_def)
  have it: "iterations collab0 plain_host (Suc 0) (generator0 5) = (Inr (), ?g1)"
    using iteration0 [where n = 5 and s = None] by (simp add: generator0_def)
  have stop: "\<not> loop_cond ?g1 1"
    using has_converged_consecutive [of stores0]
    by (simp add: loop_cond_def generator0_def world0_def)
  have go: "ran_while collab0 plain_host 0 (generator0 5) (Suc 0)"
    by (simp add: ran_while_def loop_cond_def generator0_def has_converged_def)
  have "\<exists>k. (1::int) = 0 + int k \<and> iterations collab0 plain_host k (generator0 5) = (Inr (), ?g1)
             \<and> \<not> loop_cond ?g1 1 \<and> ran_while collab0 plain_host 0 (generator0 5) k"
    using it stop go by (intro exI [of _ "Suc 0"]) simp
  with fixpoint_loop_exact
         [where C = collab0 and h = plain_host and i = 0 and g = "generator0 5" and j = 1
            and g' = ?g1 and ?g0.0 = "generator0 5"]
  have five: "fixpoint_loop collab0 plain_host 0 (generator0 5) = Some (Inr 1, ?g1)"
    by blast
  from fixpoint_loop_exact
         [where C = collab0 and h = plain_host and i = 0 and g = ?g and j = 0
            and g' = ?g and ?g0.0 = "generator0 0"] pre
  have zero: "analyze collab0 plain_host (generator0 0)
                = Some (terminal_pass collab0 plain_host ?g)"
    by blast
  from fixpoint_loop_exact
         [where C = collab0 and h = plain_host and i = 0 and g = "generator0 0" and j = 0
            and g' = "generator0 0" and ?g0.0 = "generator0 0"] m0
  have zero': "fixpoint_loop collab0 plain_host 0 (generator0 0) = Some (Inr 0, generator0 0)"
    by blast
  from five zero zero' show ?thesis by simp
qed

end
